theory Spec2Isabelle
  imports Complex_Main
begin

section \<open>Errors and results\<close>

text \<open>
  Every \<^verbatim>\<open>raise\<close> of the Python source, and every exception of a Python or MLX
  primitive the source calls, is a value of \<open>error\<close>; a function that can raise
  returns \<open>error + 'a\<close> with \<open>Inl\<close> the exception.
\<close>

datatype error = ValueError | ZeroDivisionError | TypeError | KeyError | IndexError

definition bind :: "error + 'a \<Rightarrow> ('a \<Rightarrow> error + 'b) \<Rightarrow> error + 'b" where
  "bind m f = (case m of Inl e \<Rightarrow> Inl e | Inr x \<Rightarrow> f x)"

text \<open>
  \<^verbatim>\<open>n ** -0.5\<close> for a Python int \<open>n\<close> that counts dimensions (so \<open>n \<ge> 0\<close>): Python raises
  ZeroDivisionError for \<open>0 ** -0.5\<close>.
\<close>

definition pow_neg_half :: "nat \<Rightarrow> error + real" where
  "pow_neg_half n = (if n = 0 then Inl ZeroDivisionError else Inr (real n powr (- (1 / 2))))"

section \<open>Configuration of the language model (deepseek\_vl\_v2)\<close>

text \<open>
  \<^verbatim>\<open>config.rope_scaling\<close> is an optional dictionary. Its entry \<^verbatim>\<open>"type"\<close> is a string, all
  other entries the source reads are numbers; the record keeps the two kinds apart.
\<close>

record rope_scaling_dict =
  rs_type :: "string option"
  rs_num :: "string \<rightharpoonup> real"

text \<open>\<^verbatim>\<open>d.get(key, default)\<close> and \<^verbatim>\<open>d[key]\<close> on the numeric entries.\<close>

definition rs_get :: "rope_scaling_dict \<Rightarrow> string \<Rightarrow> real \<Rightarrow> real" where
  "rs_get d key dflt = (case rs_num d key of None \<Rightarrow> dflt | Some v \<Rightarrow> v)"

definition rs_item :: "rope_scaling_dict \<Rightarrow> string \<Rightarrow> error + real" where
  "rs_item d key = (case rs_num d key of None \<Rightarrow> Inl KeyError | Some v \<Rightarrow> Inr v)"

record TextConfig =
  hidden_size :: nat
  num_attention_heads :: nat
  num_key_value_heads :: nat
  max_position_embeddings :: real
  rope_theta :: real
  rope_traditional :: bool
  rope_scaling :: "rope_scaling_dict option"
  attention_bias :: bool
  q_lora_rank :: "nat option"
  qk_rope_head_dim :: nat
  kv_lora_rank :: nat
  v_head_dim :: nat
  qk_nope_head_dim :: nat

section \<open>llava\_next/vision.py: Attention.\_\_init\_\_\<close>

text \<open>
  The constructor's own computations: the divisibility guard, the defaults of the
  optional dimensions (\<^verbatim>\<open>a or b\<close> takes \<open>b\<close> when \<open>a\<close> is None or 0), the head dimension and
  the scale. An \<^verbatim>\<open>nn.Linear\<close> is recorded by its (input, output) dimensions; its
  constructor raises only for an input dimension of zero, which cannot occur here once the
  scale has been computed (a zero \<open>dims\<close> has a zero head dimension).
\<close>

record Attention =
  att_num_heads :: nat
  att_scale :: real
  att_q_proj :: "nat \<times> nat"
  att_k_proj :: "nat \<times> nat"
  att_v_proj :: "nat \<times> nat"
  att_out_proj :: "nat \<times> nat"

definition py_or :: "nat option \<Rightarrow> nat \<Rightarrow> nat" where
  "py_or a b = (case a of None \<Rightarrow> b | Some v \<Rightarrow> if v = 0 then b else v)"

definition Attention_init ::
  "nat \<Rightarrow> nat \<Rightarrow> nat option \<Rightarrow> nat option \<Rightarrow> nat option \<Rightarrow> nat option \<Rightarrow> nat option
     \<Rightarrow> error + Attention" where
  "Attention_init dims num_heads query_input_dims key_input_dims value_input_dims
       value_dims value_output_dims =
     (if num_heads = 0 then Inl ZeroDivisionError
      else if dims mod num_heads \<noteq> 0 then Inl ValueError
      else
        let query_input_dims' = py_or query_input_dims dims;
            key_input_dims' = py_or key_input_dims dims;
            value_input_dims' = py_or value_input_dims key_input_dims';
            value_dims' = py_or value_dims dims;
            value_output_dims' = py_or value_output_dims dims;
            head_dim = dims div num_heads
        in bind (pow_neg_half head_dim) (\<lambda>scale.
             Inr \<lparr>att_num_heads = num_heads, att_scale = scale,
                  att_q_proj = (query_input_dims', dims),
                  att_k_proj = (key_input_dims', dims),
                  att_v_proj = (value_input_dims', value_dims'),
                  att_out_proj = (value_dims', value_output_dims')\<rparr>))"

section \<open>deepseek\_vl\_v2/language.py: LlamaAttention.\_\_init\_\_\<close>

text \<open>
  \<^verbatim>\<open>nn.RoPE(dims, traditional, base, scale)\<close> stores its four arguments. The four
  \<^verbatim>\<open>nn.Linear\<close> layers are recorded by their (input, output) dimensions; their constructor
  raises only for an input dimension of zero, which cannot occur here once the scale has
  been computed (the input dimensions are the hidden size and \<open>n_heads * head_dim\<close>, and
  a zero head dimension has already raised).
\<close>

record RoPE =
  rope_dims :: nat
  rope_trad :: bool
  rope_base :: real
  rope_scale :: real

record LlamaAttention =
  la_n_heads :: nat
  la_n_kv_heads :: nat
  la_head_dim :: nat
  la_scale :: real
  la_q_proj :: "nat \<times> nat"
  la_k_proj :: "nat \<times> nat"
  la_v_proj :: "nat \<times> nat"
  la_o_proj :: "nat \<times> nat"
  la_rope :: RoPE

text \<open>
  \<^verbatim>\<open>1 / config.rope_scaling["factor"] if config.rope_scaling is not None and
  config.rope_scaling["type"] == "linear" else 1\<close>
\<close>

definition llama_rope_scale :: "rope_scaling_dict option \<Rightarrow> error + real" where
  "llama_rope_scale rs =
     (case rs of
        None \<Rightarrow> Inr 1
      | Some d \<Rightarrow>
          (case rs_type d of
             None \<Rightarrow> Inl KeyError
           | Some ty \<Rightarrow>
               if ty = ''linear''
               then bind (rs_item d ''factor'')
                      (\<lambda>f. if f = 0 then Inl ZeroDivisionError else Inr (1 / f))
               else Inr 1))"

definition LlamaAttention_init :: "'a TextConfig_scheme \<Rightarrow> error + LlamaAttention" where
  "LlamaAttention_init config =
     (let dim = hidden_size config;
          n_heads = num_attention_heads config;
          n_kv_heads = num_key_value_heads config
      in if n_heads = 0 then Inl ZeroDivisionError
         else
           let head_dim = hidden_size config div n_heads
           in bind (pow_neg_half head_dim) (\<lambda>scale.
              bind (llama_rope_scale (rope_scaling config)) (\<lambda>rope_scale'.
                Inr \<lparr>la_n_heads = n_heads, la_n_kv_heads = n_kv_heads,
                     la_head_dim = head_dim, la_scale = scale,
                     la_q_proj = (dim, n_heads * head_dim),
                     la_k_proj = (dim, n_kv_heads * head_dim),
                     la_v_proj = (dim, n_kv_heads * head_dim),
                     la_o_proj = (n_heads * head_dim, dim),
                     la_rope = \<lparr>rope_dims = head_dim,
                                rope_trad = rope_traditional config,
                                rope_base = rope_theta config,
                                rope_scale = rope_scale'\<rparr>\<rparr>)))"

section \<open>Tensors\<close>

text \<open>
  An MLX array is its shape and its elements in row-major order. A well-formed tensor has
  as many elements as its shape says.
\<close>

datatype 'a tensor = Tensor (shape: "nat list") (data: "'a list")

definition wf_tensor :: "'a tensor \<Rightarrow> bool" where
  "wf_tensor t = (length (data t) = prod_list (shape t))"

text \<open>\<open>chunks n k xs\<close>: the first \<open>k\<close> consecutive blocks of \<open>n\<close> elements of \<open>xs\<close>.\<close>

fun chunks :: "nat \<Rightarrow> nat \<Rightarrow> 'a list \<Rightarrow> 'a list list" where
  "chunks n 0 xs = []"
| "chunks n (Suc k) xs = take n xs # chunks n k (drop n xs)"

text \<open>
  Broadcasting two one-dimensional arrays against each other (the NumPy rule MLX follows):
  equal lengths pair up, a length-one array is repeated, anything else is a ValueError.
\<close>

definition broadcast2 :: "'a list \<Rightarrow> 'b list \<Rightarrow> error + ('a \<times> 'b) list" where
  "broadcast2 xs ys =
     (if length xs = length ys then Inr (zip xs ys)
      else if length xs = 1 then Inr (map (\<lambda>y. (hd xs, y)) ys)
      else if length ys = 1 then Inr (map (\<lambda>x. (x, hd ys)) xs)
      else Inl ValueError)"

text \<open>
  NumPy-style broadcasting, which MLX follows. Shapes are aligned at their last axis; two
  extents are compatible when they are equal or one of them is 1.
\<close>

fun broadcast_shapes_rev :: "nat list \<Rightarrow> nat list \<Rightarrow> error + nat list" where
  "broadcast_shapes_rev [] ys = Inr ys"
| "broadcast_shapes_rev (x # xs) [] = Inr (x # xs)"
| "broadcast_shapes_rev (x # xs) (y # ys) =
     (if x = y \<or> y = 1 then bind (broadcast_shapes_rev xs ys) (\<lambda>r. Inr (x # r))
      else if x = 1 then bind (broadcast_shapes_rev xs ys) (\<lambda>r. Inr (y # r))
      else Inl ValueError)"

definition broadcast_shapes :: "nat list \<Rightarrow> nat list \<Rightarrow> error + nat list" where
  "broadcast_shapes a b = bind (broadcast_shapes_rev (rev a) (rev b)) (\<lambda>r. Inr (rev r))"

text \<open>
  \<open>bcast s t xs\<close>: the row-major elements \<open>xs\<close> of shape \<open>s\<close> repeated to shape \<open>t\<close> of the
  same rank; along an axis where \<open>s\<close> has extent 1 the single block is reused.
\<close>

fun bcast :: "nat list \<Rightarrow> nat list \<Rightarrow> 'a list \<Rightarrow> 'a list" where
  "bcast (s # ss) (t # ts) xs =
     concat (map (\<lambda>i. bcast ss ts
                         (take (prod_list ss) (drop ((if s = 1 then 0 else i) * prod_list ss) xs)))
               [0..<t])"
| "bcast _ _ xs = xs"

definition broadcast_to :: "'a tensor \<Rightarrow> nat list \<Rightarrow> 'a list" where
  "broadcast_to t s =
     bcast (replicate (length s - length (shape t)) 1 @ shape t) s (data t)"

text \<open>An element-wise binary operation (\<^verbatim>\<open>a * b\<close>, ...) with broadcasting.\<close>

definition mx_binop :: "('a \<Rightarrow> 'b \<Rightarrow> 'c) \<Rightarrow> 'a tensor \<Rightarrow> 'b tensor \<Rightarrow> error + 'c tensor" where
  "mx_binop f a b =
     bind (broadcast_shapes (shape a) (shape b)) (\<lambda>s.
       Inr (Tensor s (map (\<lambda>(x, y). f x y) (zip (broadcast_to a s) (broadcast_to b s)))))"

text \<open>\<^verbatim>\<open>mx.where(condition, x, y)\<close>: the three arguments broadcast against each other.\<close>

definition mx_where :: "bool tensor \<Rightarrow> 'a tensor \<Rightarrow> 'a tensor \<Rightarrow> error + 'a tensor" where
  "mx_where c x y =
     bind (broadcast_shapes (shape c) (shape x)) (\<lambda>s1.
     bind (broadcast_shapes s1 (shape y)) (\<lambda>s.
       Inr (Tensor s (map (\<lambda>(c', x', y'). if c' then x' else y')
                        (zip (broadcast_to c s) (zip (broadcast_to x s) (broadcast_to y s)))))))"

text \<open>An element-wise operation with a scalar (\<^verbatim>\<open>a / 2.0\<close>, \<^verbatim>\<open>a == 3\<close>, ...).\<close>

definition tmap :: "('a \<Rightarrow> 'b) \<Rightarrow> 'a tensor \<Rightarrow> 'b tensor" where
  "tmap f t = Tensor (shape t) (map f (data t))"

definition mx_zeros :: "nat list \<Rightarrow> 'a::zero tensor" where
  "mx_zeros s = Tensor s (replicate (prod_list s) 0)"

definition mx_zeros_like :: "'a::zero tensor \<Rightarrow> 'a tensor" where
  "mx_zeros_like t = mx_zeros (shape t)"

text \<open>
  \<^verbatim>\<open>mx.expand_dims(a, axis)\<close>: a new axis of extent 1 at position \<open>axis\<close> of the result
  (negative positions count from the end); the elements stay as they are.
\<close>

definition expand_dims :: "'a tensor \<Rightarrow> int \<Rightarrow> error + 'a tensor" where
  "expand_dims t axis =
     (let n = int (length (shape t)) + 1;
          ax = (if axis < 0 then axis + n else axis)
      in if ax < 0 \<or> n \<le> ax then Inl ValueError
         else Inr (Tensor (take (nat ax) (shape t) @ [1] @ drop (nat ax) (shape t)) (data t)))"

text \<open>
  \<^verbatim>\<open>mx.repeat(a, repeats, axis=-1)\<close>: every element is repeated \<open>repeats\<close> times along the
  last axis.
\<close>

definition mx_repeat_last :: "'a tensor \<Rightarrow> nat \<Rightarrow> error + 'a tensor" where
  "mx_repeat_last t repeats =
     (if shape t = [] then Inl ValueError
      else Inr (Tensor (butlast (shape t) @ [last (shape t) * repeats])
                  (concat (map (replicate repeats) (data t)))))"

text \<open>\<^verbatim>\<open>np.where(flat)[0]\<close>: the indices of the true entries of a flat array, ascending.\<close>

definition np_where :: "bool list \<Rightarrow> nat list" where
  "np_where m = filter (\<lambda>i. m ! i) [0..<length m]"

text \<open>
  \<^verbatim>\<open>flat[indices] = updates\<close> on a flat array. MLX broadcasts the updates to the shape of
  the index array: as many updates as indices are written in order, a single update is
  written at every index, any other number of updates is a ValueError. The scatter that
  performs the assignment writes slices of one element and refuses an array that has no
  element at all (\<^verbatim>\<open>Updates with shape (n,1) are too large for array with shape (0)\<close>),
  also when there is nothing to write; both refusals are ValueErrors. The indices that
  occur here are in range and distinct.
\<close>

definition setitem :: "'a list \<Rightarrow> nat list \<Rightarrow> 'a list \<Rightarrow> error + 'a list" where
  "setitem flat indices updates =
     (if flat = [] then Inl ValueError
      else if length updates = length indices
      then Inr (fold (\<lambda>(i, v) a. a[i := v]) (zip indices updates) flat)
      else if length updates = 1
      then Inr (fold (\<lambda>i a. a[i := hd updates]) indices flat)
      else Inl ValueError)"

section \<open>Rotary position encoding (mx.fast.rope, nn.RoPE)\<close>

text \<open>
  \<^verbatim>\<open>mx.fast.rope(x, dims, traditional, base, scale, offset, freqs)\<close> is MLX's kernel. It takes
  either a base or a table \<open>freqs\<close> of \<open>dims/2\<close> entries, and rotates, at sequence position
  \<open>t\<close>, the \<open>i\<close>-th coordinate pair of the first \<open>dims\<close> features by the angle
  \<open>scale \<sqdot> (offset + t) \<sqdot> inv_freq i\<close>, where \<open>inv_freq i\<close> is \<open>base ** (-2i/dims)\<close> or
  \<open>1 / freqs[i]\<close>. In traditional mode the pairs are \<open>(x[2i], x[2i+1])\<close>, otherwise
  \<open>(x[i], x[i + dims/2])\<close>. The input has at least three axes \<open>[..., seq, features]\<close>
  and at least \<open>dims\<close> features, and \<open>dims\<close> is even; otherwise the kernel raises a
  ValueError. Elements are real numbers here; the floating-point rounding of the kernel is
  not modelled.
\<close>

datatype freq_src = Base real | Freqs "real list"

definition inv_freqs :: "freq_src \<Rightarrow> nat \<Rightarrow> error + real list" where
  "inv_freqs src dims =
     (case src of
        Base b \<Rightarrow> Inr (map (\<lambda>i. b powr (- (2 * real i / real dims))) [0..<dims div 2])
      | Freqs fs \<Rightarrow>
          if length fs = dims div 2 then Inr (map (\<lambda>f. 1 / f) fs) else Inl ValueError)"

definition rope_row :: "nat \<Rightarrow> bool \<Rightarrow> real list \<Rightarrow> real \<Rightarrow> nat \<Rightarrow> real list \<Rightarrow> real list" where
  "rope_row dims traditional invf scale pos row =
     (let h = dims div 2 in
      map (\<lambda>j.
        if 2 * h \<le> j then row ! j
        else if traditional then
          (let \<theta> = scale * real pos * invf ! (j div 2) in
           if even j then row ! j * cos \<theta> - row ! (j + 1) * sin \<theta>
           else row ! (j - 1) * sin \<theta> + row ! j * cos \<theta>)
        else
          (let \<theta> = scale * real pos * invf ! (j mod h) in
           if j < h then row ! j * cos \<theta> - row ! (j + h) * sin \<theta>
           else row ! (j - h) * sin \<theta> + row ! j * cos \<theta>))
        [0..<length row])"

definition fast_rope ::
  "real tensor \<Rightarrow> nat \<Rightarrow> bool \<Rightarrow> freq_src \<Rightarrow> real \<Rightarrow> nat \<Rightarrow> error + real tensor" where
  "fast_rope x dims traditional src scale offset =
     (if length (shape x) < 3 \<or> last (shape x) < dims \<or> odd dims then Inl ValueError
      else bind (inv_freqs src dims) (\<lambda>invf.
        let D = last (shape x);
            L = last (butlast (shape x));
            rows = chunks D (length (data x) div D) (data x)
        in Inr (Tensor (shape x)
                 (concat (map (\<lambda>r. rope_row dims traditional invf scale (offset + r mod L)
                                       (rows ! r))
                            [0..<length rows])))))"


section \<open>deepseek\_vl\_v2/language.py: YaRN\<close>

text \<open>
  \<^verbatim>\<open>math.log\<close> raises ValueError outside the positive reals and float division raises
  ZeroDivisionError; the checks below come in Python's evaluation order.
\<close>

definition yarn_find_correction_dim :: "real \<Rightarrow> nat \<Rightarrow> real \<Rightarrow> real \<Rightarrow> error + real" where
  "yarn_find_correction_dim num_rotations dim' base max_position_embeddings' =
     (if num_rotations * 2 * pi = 0 then Inl ZeroDivisionError
      else if max_position_embeddings' / (num_rotations * 2 * pi) \<le> 0 then Inl ValueError
      else if base \<le> 0 then Inl ValueError
      else if 2 * ln base = 0 then Inl ZeroDivisionError
      else Inr ((real dim' * ln (max_position_embeddings' / (num_rotations * 2 * pi)))
                 / (2 * ln base)))"

definition yarn_find_correction_range ::
  "real \<Rightarrow> real \<Rightarrow> nat \<Rightarrow> real \<Rightarrow> real \<Rightarrow> error + (int \<times> int)" where
  "yarn_find_correction_range low_rot high_rot dim' base max_position_embeddings' =
     bind (yarn_find_correction_dim low_rot dim' base max_position_embeddings') (\<lambda>lo.
     bind (yarn_find_correction_dim high_rot dim' base max_position_embeddings') (\<lambda>hi.
       let low = \<lfloor>lo\<rfloor>; high = \<lceil>hi\<rceil>
       in Inr (max low 0, min high (int dim' - 1))))"

definition yarn_get_mscale :: "real \<Rightarrow> real \<Rightarrow> real" where
  "yarn_get_mscale scale mscale =
     (if scale \<le> 1 then 1 else 0.1 * mscale * ln scale + 1)"

definition clip :: "real \<Rightarrow> real \<Rightarrow> real \<Rightarrow> real" where
  "clip x lo hi = min (max x lo) hi"

definition yarn_linear_ramp_mask :: "int \<Rightarrow> int \<Rightarrow> nat \<Rightarrow> real list" where
  "yarn_linear_ramp_mask min_val max_val dim' =
     (let max_val' = (if min_val = max_val then real_of_int max_val + 0.001
                      else real_of_int max_val)
      in map (\<lambda>i. clip ((real i - real_of_int min_val) / (max_val' - real_of_int min_val)) 0 1)
           [0..<dim'])"

record YarnRotaryEmbedding =
  yarn_mscale :: real
  yarn_freqs :: "real list"

text \<open>
  \<^verbatim>\<open>DeepseekV2YarnRotaryEmbedding.__init__\<close>. \<^verbatim>\<open>mx.arange(0, dim, 2)\<close> has \<open>\<lceil>dim/2\<rceil>\<close> entries
  and the ramp mask \<open>dim // 2\<close>, so the element-wise products broadcast (or fail to) when
  \<open>dim\<close> is odd.
\<close>

definition DeepseekV2YarnRotaryEmbedding_init ::
  "nat \<Rightarrow> real \<Rightarrow> real \<Rightarrow> real \<Rightarrow> real \<Rightarrow> real \<Rightarrow> real \<Rightarrow> real \<Rightarrow> real
     \<Rightarrow> error + YarnRotaryEmbedding" where
  "DeepseekV2YarnRotaryEmbedding_init dim' max_position_embeddings' base scaling_factor
       original_max_position_embeddings beta_fast beta_slow mscale mscale_all_dim =
     (if yarn_get_mscale scaling_factor mscale_all_dim = 0 then Inl ZeroDivisionError
      else
        let self_mscale = yarn_get_mscale scaling_factor mscale
                            / yarn_get_mscale scaling_factor mscale_all_dim;
            freq_extra = map (\<lambda>k. base powr (real (2 * k) / real dim')) [0..<(dim' + 1) div 2];
            freq_inter = map (\<lambda>f. scaling_factor * f) freq_extra
        in bind (yarn_find_correction_range beta_fast beta_slow dim' base
                   original_max_position_embeddings) (\<lambda>(low, high).
             let freq_mask = map (\<lambda>r. 1 - r) (yarn_linear_ramp_mask low high (dim' div 2))
             in bind (broadcast2 (zip freq_inter freq_extra) freq_mask) (\<lambda>ps.
                  Inr \<lparr>yarn_mscale = self_mscale,
                       yarn_freqs =
                         map (\<lambda>((fi, fe), m). (fi * fe) / (fi * m + fe * (1 - m))) ps\<rparr>)))"


section \<open>deepseek\_vl\_v2/language.py: DeepseekV2Attention.\_\_init\_\_\<close>

text \<open>
  \<^verbatim>\<open>nn.Linear(input_dims, output_dims, bias)\<close> draws its weights from a uniform distribution
  of width \<^verbatim>\<open>math.sqrt(1.0 / input_dims)\<close>, which is a ZeroDivisionError for an input
  dimension of zero. The layer is recorded by its two dimensions and whether it has a bias;
  the random weights themselves are not modelled. \<^verbatim>\<open>nn.RMSNorm(dims)\<close> allocates a weight
  vector of ones and raises nothing; it is recorded by its dimension.
\<close>

record Linear =
  input_dims :: nat
  output_dims :: nat
  has_bias :: bool

definition Linear_init :: "nat \<Rightarrow> nat \<Rightarrow> bool \<Rightarrow> error + Linear" where
  "Linear_init input_dims' output_dims' bias =
     (if input_dims' = 0 then Inl ZeroDivisionError
      else Inr \<lparr>input_dims = input_dims', output_dims = output_dims', has_bias = bias\<rparr>)"

text \<open>
  The query projection is either one layer \<^verbatim>\<open>q_proj\<close> (\<^verbatim>\<open>q_lora_rank is None\<close>) or the
  low-rank pair \<^verbatim>\<open>q_a_proj\<close>, \<^verbatim>\<open>q_b_proj\<close> with \<^verbatim>\<open>q_a_layernorm\<close> in between.
\<close>

datatype q_projection = QProj Linear | QLora Linear nat Linear

definition q_projection_init :: "'a TextConfig_scheme \<Rightarrow> nat \<Rightarrow> error + q_projection" where
  "q_projection_init config q_head_dim =
     (case q_lora_rank config of
        None \<Rightarrow>
          bind (Linear_init (hidden_size config) (num_attention_heads config * q_head_dim) False)
            (\<lambda>q_proj. Inr (QProj q_proj))
      | Some rank \<Rightarrow>
          bind (Linear_init (hidden_size config) rank (attention_bias config)) (\<lambda>q_a_proj.
          bind (Linear_init rank (num_attention_heads config * q_head_dim) False) (\<lambda>q_b_proj.
            Inr (QLora q_a_proj rank q_b_proj))))"

text \<open>
  The rotary module. When \<^verbatim>\<open>rope_scaling\<close> is given but its \<^verbatim>\<open>mscale_all_dim\<close> is absent or
  zero, the constructor assigns no \<^verbatim>\<open>self.rope\<close> at all (\<open>None\<close> below) and leaves the scale
  as it is; with a nonzero \<^verbatim>\<open>mscale_all_dim\<close> the scale is multiplied twice by \<open>mscale\<close>. The
  result is the pair of the final scale and the module.
\<close>

datatype rope_module = PlainRoPE RoPE | YarnRoPE YarnRotaryEmbedding

definition rope_init ::
  "'a TextConfig_scheme \<Rightarrow> real \<Rightarrow> error + (real \<times> rope_module option)" where
  "rope_init config scale =
     (case rope_scaling config of
        None \<Rightarrow>
          Inr (scale, Some (PlainRoPE \<lparr>rope_dims = qk_rope_head_dim config,
                                        rope_trad = rope_traditional config,
                                        rope_base = rope_theta config,
                                        rope_scale = 1\<rparr>))
      | Some rs \<Rightarrow>
          let mscale_all_dim = rs_get rs ''mscale_all_dim'' 0;
              scaling_factor = rs_get rs ''factor'' 1
          in if mscale_all_dim \<noteq> 0 then
               let mscale = yarn_get_mscale scaling_factor mscale_all_dim;
                   scale' = scale * mscale * mscale
               in bind (DeepseekV2YarnRotaryEmbedding_init (qk_rope_head_dim config)
                          (max_position_embeddings config) (rope_theta config)
                          scaling_factor
                          (rs_get rs ''original_max_position_embeddings'' 4096)
                          (rs_get rs ''beta_fast'' 32) (rs_get rs ''beta_slow'' 1)
                          (rs_get rs ''mscale'' 1) (rs_get rs ''mscale_all_dim'' 0))
                    (\<lambda>rope. Inr (scale', Some (YarnRoPE rope)))
             else Inr (scale, None))"

text \<open>
  The constructor, in the order of the source: the query head dimension and the scale, the
  projection layers, the rotary module.
\<close>

record DeepseekV2Attention =
  dv_num_heads :: nat
  dv_q_head_dim :: nat
  dv_scale :: real
  dv_q :: q_projection
  dv_kv_a_proj_with_mqa :: Linear
  dv_kv_a_layernorm :: nat
  dv_kv_b_proj :: Linear
  dv_o_proj :: Linear
  dv_rope :: "rope_module option"

definition DeepseekV2Attention_init :: "'a TextConfig_scheme \<Rightarrow> error + DeepseekV2Attention" where
  "DeepseekV2Attention_init config =
     (let num_heads = num_attention_heads config;
          q_head_dim = qk_nope_head_dim config + qk_rope_head_dim config
      in bind (pow_neg_half q_head_dim) (\<lambda>scale.
         bind (q_projection_init config q_head_dim) (\<lambda>q.
         bind (Linear_init (hidden_size config)
                 (kv_lora_rank config + qk_rope_head_dim config) (attention_bias config))
           (\<lambda>kv_a_proj_with_mqa.
         bind (Linear_init (kv_lora_rank config)
                 (num_heads * (q_head_dim - qk_rope_head_dim config + v_head_dim config)) False)
           (\<lambda>kv_b_proj.
         bind (Linear_init (num_heads * v_head_dim config) (hidden_size config)
                 (attention_bias config)) (\<lambda>o_proj.
         bind (rope_init config scale) (\<lambda>(scale', rope).
           Inr \<lparr>dv_num_heads = num_heads, dv_q_head_dim = q_head_dim, dv_scale = scale',
                dv_q = q, dv_kv_a_proj_with_mqa = kv_a_proj_with_mqa,
                dv_kv_a_layernorm = kv_lora_rank config, dv_kv_b_proj = kv_b_proj,
                dv_o_proj = o_proj, dv_rope = rope\<rparr>)))))))"

text \<open>A configuration with hidden size 10 and 3 attention heads.\<close>

definition config_10_3 :: TextConfig where
  "config_10_3 =
     \<lparr>hidden_size = 10, num_attention_heads = 3, num_key_value_heads = 3,
      max_position_embeddings = 2048, rope_theta = 10000, rope_traditional = False,
      rope_scaling = None, attention_bias = False, q_lora_rank = None,
      qk_rope_head_dim = 2, kv_lora_rank = 4, v_head_dim = 4, qk_nope_head_dim = 2\<rparr>"

text \<open>A YaRN configuration: factor 40, \<^verbatim>\<open>mscale_all_dim\<close> 1, head dimensions 12 + 4.\<close>

definition config_yarn :: TextConfig where
  "config_yarn =
     \<lparr>hidden_size = 64, num_attention_heads = 4, num_key_value_heads = 4,
      max_position_embeddings = 4096, rope_theta = 10000, rope_traditional = True,
      rope_scaling = Some \<lparr>rs_type = Some ''yarn'',
                           rs_num = [''factor'' \<mapsto> 40, ''mscale'' \<mapsto> 1, ''mscale_all_dim'' \<mapsto> 1,
                                     ''original_max_position_embeddings'' \<mapsto> 4096,
                                     ''beta_fast'' \<mapsto> 32, ''beta_slow'' \<mapsto> 1]\<rparr>,
      attention_bias = False, q_lora_rank = None,
      qk_rope_head_dim = 4, kv_lora_rank = 8, v_head_dim = 12, qk_nope_head_dim = 12\<rparr>"




section \<open>gemma3/gemma3.py: multimodal fusion\<close>

text \<open>
  \<^verbatim>\<open>masked_scatter\<close>: the three arrays are flattened, the features are written at the flat
  positions where the mask is true, and the result takes the embedding's shape again.
\<close>

definition masked_scatter ::
  "'a tensor \<Rightarrow> bool tensor \<Rightarrow> 'a tensor \<Rightarrow> error + 'a tensor" where
  "masked_scatter final_embedding image_mask_expanded scaled_image_features =
     (let final_embedding_shape = shape final_embedding;
          scaled_image_features_flattened = data scaled_image_features;
          final_embedding_flattened = data final_embedding;
          image_mask_expanded_flattened = data image_mask_expanded;
          image_positions = np_where image_mask_expanded_flattened
      in bind (setitem final_embedding_flattened image_positions
                 scaled_image_features_flattened) (\<lambda>final_embedding_flattened'.
           Inr (Tensor final_embedding_shape final_embedding_flattened')))"

text \<open>
  \<^verbatim>\<open>Model.prepare_inputs_for_multimodal\<close>. Token ids and the attention mask are integer
  arrays, embeddings and features are arrays of reals (their floating-point type and the
  final \<^verbatim>\<open>astype\<close> are not modelled). Unpacking a shape of the wrong rank is a
  ValueError; a missing attention mask is a TypeError of \<^verbatim>\<open>mx.expand_dims\<close>, raised after
  the embeddings have been fused.
\<close>

definition prepare_inputs_for_multimodal ::
  "nat \<Rightarrow> int option \<Rightarrow> int \<Rightarrow> real tensor \<Rightarrow> real tensor \<Rightarrow> int tensor \<Rightarrow> int tensor option
     \<Rightarrow> error + (real tensor \<times> int tensor)" where
  "prepare_inputs_for_multimodal hidden_size' pad_token_id image_token_index image_features
       inputs_embeds input_ids attention_mask =
     (case shape image_features of
        [_, _, embed_dim] \<Rightarrow>
          (case shape input_ids of
             [batch_size, sequence_length] \<Rightarrow>
               (let scaled_image_features =
                      tmap (\<lambda>v. v / sqrt (real hidden_size')) image_features;
                    final_embedding = mx_zeros [batch_size, sequence_length, embed_dim];
                    pad_token_id' = (case pad_token_id of None \<Rightarrow> 0 | Some p \<Rightarrow> p);
                    text_mask =
                      tmap (\<lambda>i. i \<noteq> image_token_index \<and> i \<noteq> pad_token_id') input_ids;
                    image_mask = tmap (\<lambda>i. i = image_token_index) input_ids;
                    pad_mask = tmap (\<lambda>i. i = pad_token_id') input_ids
                in
                bind (expand_dims text_mask (- 1)) (\<lambda>text_mask_expanded.
                bind (mx_repeat_last text_mask_expanded embed_dim) (\<lambda>text_mask_expanded.
                bind (expand_dims pad_mask (- 1)) (\<lambda>pad_mask_expanded.
                bind (mx_repeat_last pad_mask_expanded embed_dim) (\<lambda>pad_mask_expanded.
                bind (expand_dims image_mask (- 1)) (\<lambda>image_mask_expanded.
                bind (mx_repeat_last image_mask_expanded embed_dim) (\<lambda>image_mask_expanded.
                bind (mx_where text_mask_expanded inputs_embeds final_embedding)
                  (\<lambda>final_embedding.
                bind (mx_where pad_mask_expanded (mx_zeros_like final_embedding)
                        final_embedding) (\<lambda>final_embedding.
                bind (masked_scatter final_embedding image_mask_expanded
                        scaled_image_features) (\<lambda>final_embedding.
                case attention_mask of
                  None \<Rightarrow> Inl TypeError
                | Some attention_mask' \<Rightarrow>
                    bind (expand_dims attention_mask' 1) (\<lambda>attention_mask_expanded_1.
                    bind (expand_dims attention_mask' 2) (\<lambda>attention_mask_expanded_2.
                    bind (mx_binop (*) attention_mask_expanded_1 attention_mask_expanded_2)
                      (\<lambda>final_attention_mask_4d.
                    bind (expand_dims final_attention_mask_4d 1) (\<lambda>final_attention_mask_4d.
                      Inr (final_embedding, final_attention_mask_4d)))))))))))))))
           | _ \<Rightarrow> Inl ValueError)
      | _ \<Rightarrow> Inl ValueError)"

text \<open>
  The collaborators of \<^verbatim>\<open>Model\<close> that live outside this file: the embedding table, the
  vision tower followed by the projector, and the language model. The language model is
  called with keyword arguments; \<open>lm_mask\<close> is its \<^verbatim>\<open>mask\<close> argument, \<open>None\<close> when the caller
  passes none (the decoder stack then builds its own causal mask).
\<close>

record 'c lm_args =
  lm_inputs :: "int tensor"
  lm_cache :: 'c
  lm_inputs_embeds :: "real tensor option"
  lm_mask :: "int tensor option"

record ('p, 'c, 'l) Model =
  config_hidden_size :: nat
  config_pad_token_id :: "int option"
  config_image_token_index :: int
  embed_tokens :: "int tensor \<Rightarrow> real tensor"
  image_features_of :: "'p \<Rightarrow> real tensor"
  language_model :: "'c lm_args \<Rightarrow> 'l"

text \<open>\<^verbatim>\<open>Model.get_input_embeddings\<close>\<close>

definition get_input_embeddings ::
  "('p, 'c, 'l) Model \<Rightarrow> int tensor \<Rightarrow> 'p option \<Rightarrow> int tensor option
     \<Rightarrow> error + (real tensor \<times> int tensor option)" where
  "get_input_embeddings self input_ids pixel_values mask' =
     (case pixel_values of
        None \<Rightarrow> Inr (embed_tokens self input_ids, None)
      | Some pixel_values' \<Rightarrow>
          (let inputs_embeds = embed_tokens self input_ids;
               image_features = image_features_of self pixel_values'
           in bind (prepare_inputs_for_multimodal (config_hidden_size self)
                      (config_pad_token_id self) (config_image_token_index self)
                      image_features inputs_embeds input_ids mask')
                (\<lambda>(final_inputs_embeds, final_attention_mask_4d).
                   Inr (final_inputs_embeds, Some final_attention_mask_4d))))"

text \<open>
  \<^verbatim>\<open>Model.__call__\<close>: \<open>Model_call_lm_args\<close> is the argument record the language model is
  called with, \<open>Model_call\<close> the logits it returns.
\<close>

definition Model_call_lm_args ::
  "('p, 'c, 'l) Model \<Rightarrow> int tensor \<Rightarrow> 'p option \<Rightarrow> int tensor option \<Rightarrow> 'c
     \<Rightarrow> error + 'c lm_args" where
  "Model_call_lm_args self input_ids pixel_values mask' cache =
     bind (get_input_embeddings self input_ids pixel_values mask')
       (\<lambda>(input_embeddings, final_attention_mask_4d).
          Inr \<lparr>lm_inputs = input_ids, lm_cache = cache,
               lm_inputs_embeds = Some input_embeddings, lm_mask = None\<rparr>)"

definition Model_call ::
  "('p, 'c, 'l) Model \<Rightarrow> int tensor \<Rightarrow> 'p option \<Rightarrow> int tensor option \<Rightarrow> 'c \<Rightarrow> error + 'l" where
  "Model_call self input_ids pixel_values mask' cache =
     bind (Model_call_lm_args self input_ids pixel_values mask' cache)
       (\<lambda>args. Inr (language_model self args))"

text \<open>
  For stating where vectors end up: \<open>vec t p\<close> is the \<open>p\<close>-th vector along the last axis of
  \<open>t\<close>, counted in row-major order, so in a tensor of shape \<open>[B, S, E]\<close> the vector at
  batch \<open>b\<close> and position \<open>s\<close> is \<open>vec t (b * S + s)\<close>, and in image features of shape
  \<open>[N, T, E]\<close> the \<open>j\<close>-th flattened feature vector is \<open>vec t j\<close>. \<open>image_rank\<close> counts the
  image-token positions before flat position \<open>p\<close>.
\<close>

definition vec :: "'a tensor \<Rightarrow> nat \<Rightarrow> 'a list" where
  "vec t p = take (last (shape t)) (drop (p * last (shape t)) (data t))"

definition image_rank :: "int \<Rightarrow> int tensor \<Rightarrow> nat \<Rightarrow> nat" where
  "image_rank image_token_index input_ids p =
     length (filter (\<lambda>i. i = image_token_index) (take p (data input_ids)))"

text \<open>
  The four-dimensional attention mask as the specification describes it: for a validity
  mask of shape \<open>[B, S]\<close> the tensor of shape \<open>[B, 1, S, S]\<close> whose entry at
  \<open>(b, 0, i, j)\<close> is \<open>mask[b, i] * mask[b, j]\<close>.
\<close>

definition outer_product_mask :: "int tensor \<Rightarrow> int tensor" where
  "outer_product_mask am =
     (case shape am of
        [b, s] \<Rightarrow>
          Tensor [b, 1, s, s]
            (concat (map (\<lambda>bi. concat (map (\<lambda>i. map (\<lambda>j. data am ! (bi * s + i)
                                                            * data am ! (bi * s + j)) [0..<s])
                                           [0..<s]))
                       [0..<b]))
      | _ \<Rightarrow> am)"


text \<open>
  A small fusion input: one sequence of four tokens \<open>[7, 5, 0, 7]\<close> with image-token id 7,
  embedding width 2, two image feature vectors \<open>[2, 4]\<close> and \<open>[6, 8]\<close>, and a validity mask
  that marks the third token as padding.
\<close>

definition ex_features :: "real tensor" where
  "ex_features = Tensor [1, 2, 2] [2, 4, 6, 8]"

definition ex_embeds :: "real tensor" where
  "ex_embeds = Tensor [1, 4, 2] [10, 20, 30, 40, 50, 60, 70, 80]"

definition ex_ids :: "int tensor" where
  "ex_ids = Tensor [1, 4] [7, 5, 0, 7]"

definition ex_mask :: "int tensor" where
  "ex_mask = Tensor [1, 4] [1, 1, 0, 1]"

text \<open>
  A mismatched input of embedding width 1: two image-token positions in \<open>[7, 9, 7]\<close> but a
  single one-component feature vector \<open>[4]\<close>.
\<close>

definition ex1_features :: "real tensor" where
  "ex1_features = Tensor [1, 1, 1] [4]"

definition ex1_embeds :: "real tensor" where
  "ex1_embeds = Tensor [1, 3, 1] [10, 20, 30]"

definition ex1_ids :: "int tensor" where
  "ex1_ids = Tensor [1, 3] [7, 9, 7]"

definition ex1_mask :: "int tensor" where
  "ex1_mask = Tensor [1, 3] [1, 1, 1]"

text \<open>
  A model around the small fusion input: its embedding table and its vision path return the
  embeddings and features above, and its language model hands back the arguments it was
  called with.
\<close>

definition ex_model :: "(unit, unit, unit lm_args) Model" where
  "ex_model =
     \<lparr>config_hidden_size = 4, config_pad_token_id = Some 0, config_image_token_index = 7,
      embed_tokens = (\<lambda>ids. ex_embeds), image_features_of = (\<lambda>pixels. ex_features),
      language_model = (\<lambda>args. args)\<rparr>"

text \<open>The small fusion input with only one image token left.\<close>

definition ex_ids_one :: "int tensor" where
  "ex_ids_one = Tensor [1, 4] [7, 5, 0, 5]"


section \<open>deepseek\_vl\_v2/language.py: MoEGate\<close>

text \<open>
  Python slices \<^verbatim>\<open>xs[:k]\<close> and \<^verbatim>\<open>xs[k:]\<close>: a negative bound counts from the end and is
  clamped at the start of the list.
\<close>

definition py_slice_to :: "int \<Rightarrow> 'a list \<Rightarrow> 'a list" where
  "py_slice_to k xs = (if k < 0 then take (nat (int (length xs) + k)) xs else take (nat k) xs)"

definition py_slice_from :: "int \<Rightarrow> 'a list \<Rightarrow> 'a list" where
  "py_slice_from k xs = (if k < 0 then drop (nat (int (length xs) + k)) xs else drop (nat k) xs)"

text \<open>
  \<^verbatim>\<open>mx.argpartition(a, kth, axis=-1)\<close> on one row. MLX promises a permutation of the indices
  such that the entry at position \<open>kth\<close> is the one a full sort would put there, no larger
  entry comes before it and no smaller one after it; the order within the two parts is up
  to the selection algorithm. The algorithm is therefore a parameter \<open>ap\<close> of the model, and
  \<open>is_argpartition\<close> is what MLX promises about it. A negative \<open>kth\<close> counts from the end; a
  \<open>kth\<close> out of range is a ValueError.
\<close>

definition is_argpartition :: "(real list \<Rightarrow> nat \<Rightarrow> nat list) \<Rightarrow> bool" where
  "is_argpartition ap =
     (\<forall>xs kth. kth < length xs \<longrightarrow>
        distinct (ap xs kth) \<and> set (ap xs kth) = {..<length xs} \<and>
        (\<forall>i. i < kth \<longrightarrow> xs ! (ap xs kth ! i) \<le> xs ! (ap xs kth ! kth)) \<and>
        (\<forall>i. kth < i \<and> i < length xs \<longrightarrow> xs ! (ap xs kth ! kth) \<le> xs ! (ap xs kth ! i)))"

definition argpartition ::
  "(real list \<Rightarrow> nat \<Rightarrow> nat list) \<Rightarrow> real list \<Rightarrow> int \<Rightarrow> error + nat list" where
  "argpartition ap xs kth =
     (let n = int (length xs);
          kth' = (if kth < 0 then kth + n else kth)
      in if kth' < 0 \<or> n \<le> kth' then Inl ValueError else Inr (ap xs (nat kth')))"

text \<open>One admissible selection algorithm: sort the indices by their entries.\<close>

definition argsort :: "real list \<Rightarrow> nat \<Rightarrow> nat list" where
  "argsort xs kth = sort_key (\<lambda>i. xs ! i) [0..<length xs]"

text \<open>
  \<^verbatim>\<open>a.reshape(..., -1)\<close>: the extent MLX infers for the open axis from the total number of
  elements and the product of the given extents; inferring from a product of zero, or one
  that does not divide the total, is a ValueError.
\<close>

definition reshape_infer :: "nat \<Rightarrow> nat \<Rightarrow> error + nat" where
  "reshape_infer size' known =
     (if known = 0 then Inl ValueError
      else if size' mod known \<noteq> 0 then Inl ValueError
      else Inr (size' div known))"

text \<open>Running a function that may raise over a list, stopping at the first error.\<close>

fun map_result :: "('a \<Rightarrow> error + 'b) \<Rightarrow> 'a list \<Rightarrow> error + 'b list" where
  "map_result f [] = Inr []"
| "map_result f (x # xs) = bind (f x) (\<lambda>y. bind (map_result f xs) (\<lambda>ys. Inr (y # ys)))"

definition softmax :: "real list \<Rightarrow> real list" where
  "softmax gs = map (\<lambda>g. exp g / sum_list (map exp gs)) gs"

definition sigmoid :: "real \<Rightarrow> real" where
  "sigmoid g = 1 / (1 + exp (- g))"

text \<open>\<^verbatim>\<open>mx.topk(a, 2, axis=-1).sum(axis=-1)\<close> on one row: the sum of its two largest entries.\<close>

definition top2_sum :: "real list \<Rightarrow> real" where
  "top2_sum xs = sum_list (take 2 (rev (sort xs)))"

text \<open>\<^verbatim>\<open>a.max(axis=-1)\<close> on one non-empty row.\<close>

definition row_max :: "real list \<Rightarrow> real" where
  "row_max xs = fold max (tl xs) (hd xs)"

record MoEGate =
  scoring_func :: string
  top_k :: nat
  n_routed_experts :: nat
  routed_scaling_factor :: real
  topk_method :: string
  n_group :: nat
  topk_group :: nat
  e_score_correction_bias :: "real list"
  weight :: "real tensor"

text \<open>
  The greedy policy on the scores of one token, already reshaped into groups of
  \<open>experts_per_group\<close>: the \<open>n_group - topk_group\<close> groups with the lowest maximum are set
  to zero, then the \<open>top_k\<close> largest scores are selected and gathered.
\<close>

definition greedy_token ::
  "(real list \<Rightarrow> nat \<Rightarrow> nat list) \<Rightarrow> 'a MoEGate_scheme \<Rightarrow> nat \<Rightarrow> real list
     \<Rightarrow> error + (nat list \<times> real list)" where
  "greedy_token ap self experts_per_group scores =
     (let group_scores = map row_max (chunks experts_per_group (n_group self) scores);
          k = int (n_group self) - int (topk_group self)
      in bind (argpartition ap group_scores (k - 1)) (\<lambda>part.
           let group_idx = py_slice_to k part;
               scores' = map (\<lambda>i. if i div experts_per_group \<in> set group_idx then 0
                                    else scores ! i) [0..<length scores];
               k = int (top_k self)
           in bind (argpartition ap (map uminus scores') (k - 1)) (\<lambda>part'.
                let inds = py_slice_to k part'
                in Inr (inds, map (\<lambda>i. scores' ! i) inds))))"

text \<open>
  The index of the groups to drop under the noaux\_tc policy, for one token: the bias is
  added (with broadcasting), each group is scored by the sum of its two largest corrected
  scores, and the \<open>n_group - topk_group\<close> lowest groups are picked.
\<close>

definition noaux_scores_for_choice :: "'a MoEGate_scheme \<Rightarrow> real list \<Rightarrow> error + real list" where
  "noaux_scores_for_choice self scores =
     bind (broadcast2 scores (e_score_correction_bias self))
       (\<lambda>ps. Inr (map (\<lambda>(s, b). s + b) ps))"

definition noaux_group_idx ::
  "(real list \<Rightarrow> nat \<Rightarrow> nat list) \<Rightarrow> 'a MoEGate_scheme \<Rightarrow> nat \<Rightarrow> real list
     \<Rightarrow> error + nat list" where
  "noaux_group_idx ap self experts_per_group scores_for_choice =
     (let group_scores =
            map top2_sum (chunks experts_per_group (n_group self) scores_for_choice);
          k = int (n_group self) - int (topk_group self)
      in bind (argpartition ap group_scores (k - 1)) (\<lambda>part. Inr (py_slice_to k part)))"

text \<open>
  \<^verbatim>\<open>MoEGate.__call__\<close> on hidden states of shape \<open>[bsz, seq_len, hidden]\<close> (the only rank the
  layer is called with; for other ranks the model says ValueError and no theorem speaks
  about them). The \<open>bsz * seq_len\<close> tokens are kept as a list of rows. \<open>gate_scores\<close> is
  the matrix product with the transposed gate weight followed by the scoring function,
  \<open>greedy_select\<close> and \<open>noaux_select\<close> are the two branches of the source, and
  \<open>MoEGate_call\<close> is the whole call.

  Under noaux\_tc the source indexes the scores, which still have shape
  \<open>[bsz, seq_len, experts]\<close>, with three index arrays of shapes \<open>[bsz, 1, 1]\<close>,
  \<open>[1, seq_len, 1]\<close> and \<open>[bsz * seq_len, k]\<close>. They broadcast only when \<open>bsz = 1\<close> or
  \<open>seq_len = 1\<close> (otherwise ValueError), to shape \<open>[bsz, bsz * seq_len, k]\<close>: entry
  \<open>(b, m, j)\<close> sets to zero, for token \<open>(b, m)\<close> (or \<open>(b, 0)\<close> when \<open>seq_len = 1\<close>), the
  score of the expert whose number is \<open>group_idx[m][j]\<close>. The gather at the end adds the
  selected indices of shape \<open>[bsz, seq_len, k]\<close> to row offsets of shape
  \<open>[bsz * seq_len, 1]\<close>, which broadcasts in the same way: entry \<open>(b, m, j)\<close> of the returned
  weights is the score of row \<open>m\<close> at the index selected for token \<open>(b, m)\<close> (or \<open>(b, 0)\<close>).
  A score index out of range is unspecified in MLX and leaves the list unchanged here.
\<close>

definition gate_scores ::
  "'a MoEGate_scheme \<Rightarrow> nat \<Rightarrow> nat \<Rightarrow> nat \<Rightarrow> nat \<Rightarrow> real tensor \<Rightarrow> error + real list list" where
  "gate_scores self n_tokens hidden experts hidden_w x =
     (let tokens = chunks hidden n_tokens (data x);
          rows = chunks hidden_w experts (data (weight self));
          gates = map (\<lambda>t. map (\<lambda>w. sum_list (map (\<lambda>(a, b). a * b) (zip t w))) rows) tokens
      in if hidden \<noteq> hidden_w then Inl ValueError
         else if scoring_func self = ''softmax'' then Inr (map softmax gates)
         else if scoring_func self = ''sigmoid'' then Inr (map (map sigmoid) gates)
         else Inl ValueError)"

definition greedy_select ::
  "(real list \<Rightarrow> nat \<Rightarrow> nat list) \<Rightarrow> 'a MoEGate_scheme \<Rightarrow> nat \<Rightarrow> nat \<Rightarrow> nat \<Rightarrow> real list list
     \<Rightarrow> error + (nat tensor \<times> real tensor)" where
  "greedy_select ap self bsz seq_len experts scores =
     bind (reshape_infer (bsz * seq_len * experts) (bsz * seq_len * n_group self))
       (\<lambda>experts_per_group.
          if experts_per_group = 0 then Inl ValueError
          else
            bind (map_result (greedy_token ap self experts_per_group) scores) (\<lambda>res.
              let k = length (py_slice_to (int (top_k self)) [0..<experts])
              in Inr (Tensor [bsz, seq_len, k] (concat (map fst res)),
                      Tensor [bsz, seq_len, k]
                        (map (\<lambda>s. s * routed_scaling_factor self) (concat (map snd res))))))"

definition noaux_zeroed ::
  "nat \<Rightarrow> nat \<Rightarrow> nat list list \<Rightarrow> real list list \<Rightarrow> real list list" where
  "noaux_zeroed bsz seq_len group_idx scores =
     map (\<lambda>t. fold (\<lambda>e s. s[e := 0])
                 (concat (map (\<lambda>m. if seq_len = 1 \<or> m = t then group_idx ! m else [])
                            [0..<bsz * seq_len]))
                 (scores ! t))
       [0..<bsz * seq_len]"

definition noaux_gather ::
  "nat \<Rightarrow> nat \<Rightarrow> nat list list \<Rightarrow> real list list \<Rightarrow> real list" where
  "noaux_gather bsz seq_len inds scores' =
     concat (map (\<lambda>b. concat (map (\<lambda>m. map (\<lambda>i. scores' ! m ! i)
                                           (inds ! (b * seq_len + (if seq_len = 1 then 0 else m))))
                                [0..<bsz * seq_len]))
               [0..<bsz])"

definition noaux_select ::
  "(real list \<Rightarrow> nat \<Rightarrow> nat list) \<Rightarrow> 'a MoEGate_scheme \<Rightarrow> nat \<Rightarrow> nat \<Rightarrow> nat \<Rightarrow> real list list
     \<Rightarrow> error + (nat tensor \<times> real tensor)" where
  "noaux_select ap self bsz seq_len experts scores =
     bind (reshape_infer (bsz * seq_len * experts) (bsz * seq_len)) (\<lambda>experts'.
     bind (map_result (noaux_scores_for_choice self) scores) (\<lambda>scores_for_choice.
     bind (reshape_infer (bsz * seq_len * length (hd scores_for_choice))
             (bsz * seq_len * n_group self)) (\<lambda>experts_per_group.
     if experts_per_group < 2 then Inl ValueError
     else
       bind (map_result (noaux_group_idx ap self experts_per_group) scores_for_choice)
         (\<lambda>group_idx.
       if \<not> (bsz = 1 \<or> seq_len = 1) then Inl ValueError
       else
         let scores' = noaux_zeroed bsz seq_len group_idx scores;
             k = int (top_k self)
         in bind (map_result
                    (\<lambda>s. bind (argpartition ap s (- k)) (\<lambda>part. Inr (py_slice_from (- k) part)))
                    scores') (\<lambda>inds.
              let k' = length (py_slice_from (- k) [0..<experts])
              in Inr (Tensor [bsz, seq_len, k'] (concat inds),
                      Tensor [bsz, bsz * seq_len, k']
                        (map (\<lambda>s. s * routed_scaling_factor self)
                           (noaux_gather bsz seq_len inds scores'))))))))"

definition MoEGate_call ::
  "(real list \<Rightarrow> nat \<Rightarrow> nat list) \<Rightarrow> 'a MoEGate_scheme \<Rightarrow> real tensor
     \<Rightarrow> error + (nat tensor \<times> real tensor)" where
  "MoEGate_call ap self x =
     (case (shape x, shape (weight self)) of
        ([bsz, seq_len, hidden], [experts, hidden_w]) \<Rightarrow>
          bind (gate_scores self (bsz * seq_len) hidden experts hidden_w x) (\<lambda>scores.
            if topk_method self = ''greedy''
            then greedy_select ap self bsz seq_len experts scores
            else if topk_method self = ''noaux_tc''
            then noaux_select ap self bsz seq_len experts scores
            else Inl ValueError)
      | _ \<Rightarrow> Inl ValueError)"

text \<open>
  A gate under the noaux\_tc policy: four experts in two groups of two, one group kept,
  two experts per token, sigmoid scores, scaling factor 2. With the hidden state \<open>[1]\<close> the
  gate logits are \<open>[3, 0, 2, 1]\<close>, and the bias makes group 0 the group that is kept.
  \<open>gate_x1\<close> is one token, \<open>gate_x22\<close> a batch of two sequences of two tokens.
\<close>

definition gate_noaux :: MoEGate where
  "gate_noaux =
     \<lparr>scoring_func = ''sigmoid'', top_k = 2, n_routed_experts = 4,
      routed_scaling_factor = 2, topk_method = ''noaux_tc'', n_group = 2, topk_group = 1,
      e_score_correction_bias = [10, 10, 0, 0], weight = Tensor [4, 1] [3, 0, 2, 1]\<rparr>"

definition gate_x1 :: "real tensor" where
  "gate_x1 = Tensor [1, 1, 1] [1]"

definition gate_x22 :: "real tensor" where
  "gate_x22 = Tensor [2, 2, 1] [1, 1, 1, 1]"
section \<open>Sequencing of results\<close>

lemma bind_Inr: "bind (Inr x) f = f x"
  by (simp add: bind_def)

lemma bind_Inl: "bind (Inl e) f = Inl e"
  by (simp add: bind_def)

section \<open>Construction-time checks of the attention modules\<close>

lemma Attention_init_not_divisible:
  "dims mod num_heads \<noteq> 0 \<Longrightarrow> \<exists>e. Attention_init dims num_heads q k v vd vo = Inl e"
  by (simp add: Attention_init_def)

text \<open>
  C9. The claim asks that an attention module whose hidden size is not divisible by its
  head count fails at construction. The vision \<open>Attention\<close> does
  (\<open>Attention_init_not_divisible\<close>); \<open>LlamaAttention\<close> has no such guard: with hidden size
  10 and 3 heads the constructor returns a module with head dimension \<open>10 // 3 = 3\<close>,
  whose query projection maps 10 features to 9 and whose output projection maps 9 back to
  10, and no error is raised.
\<close>

theorem LlamaAttention_init_no_divisibility_check:
  "hidden_size config_10_3 mod num_attention_heads config_10_3 \<noteq> 0 \<and>
   (\<exists>a. LlamaAttention_init config_10_3 = Inr a \<and> la_head_dim a = 3 \<and>
        la_q_proj a = (10, 9) \<and> la_o_proj a = (9, 10))"
  by (simp add: LlamaAttention_init_def config_10_3_def pow_neg_half_def bind_def
      llama_rope_scale_def)

section \<open>The attention scale of the latent attention\<close>

lemma yarn_find_correction_dim_ok:
  "num_rotations > 0 \<Longrightarrow> m > 0 \<Longrightarrow> base > 0 \<Longrightarrow> base \<noteq> 1 \<Longrightarrow>
   yarn_find_correction_dim num_rotations d base m =
     Inr ((real d * ln (m / (num_rotations * 2 * pi))) / (2 * ln base))"
proof -
  assume a: "num_rotations > 0" "m > 0" "base > 0" "base \<noteq> 1"
  then have "m / (num_rotations * 2 * pi) > 0" by simp
  with a show ?thesis by (simp add: yarn_find_correction_dim_def not_le)
qed


lemma DeepseekV2YarnRotaryEmbedding_init_ok:
  assumes "even d" "base > 0" "base \<noteq> 1" "bf > 0" "bs > 0" "om > 0"
    and "yarn_get_mscale sf mad \<noteq> 0"
  shows "\<exists>r. DeepseekV2YarnRotaryEmbedding_init d mp base sf om bf bs ms mad = Inr r \<and>
             yarn_mscale r = yarn_get_mscale sf ms / yarn_get_mscale sf mad"
proof -
  have len: "(d + 1) div 2 = d div 2" using assms(1) by presburger
  show ?thesis
    using assms
    by (simp add: DeepseekV2YarnRotaryEmbedding_init_def yarn_find_correction_range_def
        yarn_find_correction_dim_ok bind_def Let_def broadcast2_def yarn_linear_ramp_mask_def len)
qed

lemma Linear_init_ok:
  "0 < i \<Longrightarrow> Linear_init i out b = Inr \<lparr>input_dims = i, output_dims = out, has_bias = b\<rparr>"
  by (simp add: Linear_init_def)

lemma q_projection_init_ok:
  assumes "0 < hidden_size config" and "q_lora_rank config \<noteq> Some 0"
  shows "\<exists>q. q_projection_init config d = Inr q"
proof (cases "q_lora_rank config")
  case None
  with assms(1) show ?thesis by (simp add: q_projection_init_def Linear_init_ok bind_def)
next
  case (Some rank)
  with assms(2) have "0 < rank" by simp
  with assms(1) Some show ?thesis by (simp add: q_projection_init_def Linear_init_ok bind_def)
qed

lemma rope_init_ok:
  assumes "\<forall>rs. rope_scaling config = Some rs \<longrightarrow> rs_get rs ''mscale_all_dim'' 0 \<noteq> 0 \<longrightarrow>
             even (qk_rope_head_dim config) \<and> 0 < rope_theta config \<and> rope_theta config \<noteq> 1 \<and>
             0 < rs_get rs ''beta_fast'' 32 \<and> 0 < rs_get rs ''beta_slow'' 1 \<and>
             0 < rs_get rs ''original_max_position_embeddings'' 4096 \<and>
             yarn_get_mscale (rs_get rs ''factor'' 1) (rs_get rs ''mscale_all_dim'' 0) \<noteq> 0"
  shows "\<exists>rope. rope_init config scale =
           Inr (scale * (case rope_scaling config of
                           None \<Rightarrow> 1
                         | Some rs \<Rightarrow>
                             if rs_get rs ''mscale_all_dim'' 0 \<noteq> 0
                             then yarn_get_mscale (rs_get rs ''factor'' 1)
                                    (rs_get rs ''mscale_all_dim'' 0)
                                  * yarn_get_mscale (rs_get rs ''factor'' 1)
                                      (rs_get rs ''mscale_all_dim'' 0)
                             else 1), rope)"
proof (cases "rope_scaling config")
  case None
  then show ?thesis by (simp add: rope_init_def)
next
  case (Some rs)
  show ?thesis
  proof (cases "rs_get rs ''mscale_all_dim'' 0 = 0")
    case True
    with Some show ?thesis by (simp add: rope_init_def)
  next
    case False
    with assms Some have c: "even (qk_rope_head_dim config)" "0 < rope_theta config"
      "rope_theta config \<noteq> 1" "0 < rs_get rs ''beta_fast'' 32" "0 < rs_get rs ''beta_slow'' 1"
      "0 < rs_get rs ''original_max_position_embeddings'' 4096"
      "yarn_get_mscale (rs_get rs ''factor'' 1) (rs_get rs ''mscale_all_dim'' 0) \<noteq> 0"
      by blast+
    from DeepseekV2YarnRotaryEmbedding_init_ok [OF c,
        of "max_position_embeddings config" "rs_get rs ''mscale'' 1"]
    obtain r where "DeepseekV2YarnRotaryEmbedding_init (qk_rope_head_dim config)
                      (max_position_embeddings config) (rope_theta config)
                      (rs_get rs ''factor'' 1)
                      (rs_get rs ''original_max_position_embeddings'' 4096)
                      (rs_get rs ''beta_fast'' 32) (rs_get rs ''beta_slow'' 1)
                      (rs_get rs ''mscale'' 1) (rs_get rs ''mscale_all_dim'' 0) = Inr r"
      by blast
    with Some False show ?thesis by (simp add: rope_init_def Let_def bind_Inr mult.assoc)
  qed
qed

lemma DeepseekV2Attention_init_ok:
  assumes "0 < hidden_size config"
    and "0 < qk_nope_head_dim config + qk_rope_head_dim config"
    and "0 < kv_lora_rank config"
    and "0 < num_attention_heads config" and "0 < v_head_dim config"
    and "q_lora_rank config \<noteq> Some 0"
    and "\<forall>rs. rope_scaling config = Some rs \<longrightarrow> rs_get rs ''mscale_all_dim'' 0 \<noteq> 0 \<longrightarrow>
             even (qk_rope_head_dim config) \<and> 0 < rope_theta config \<and> rope_theta config \<noteq> 1 \<and>
             0 < rs_get rs ''beta_fast'' 32 \<and> 0 < rs_get rs ''beta_slow'' 1 \<and>
             0 < rs_get rs ''original_max_position_embeddings'' 4096 \<and>
             yarn_get_mscale (rs_get rs ''factor'' 1) (rs_get rs ''mscale_all_dim'' 0) \<noteq> 0"
  shows "\<exists>a. DeepseekV2Attention_init config = Inr a \<and>
           dv_q_head_dim a = qk_nope_head_dim config + qk_rope_head_dim config \<and>
           dv_scale a =
             real (qk_nope_head_dim config + qk_rope_head_dim config) powr (- (1 / 2))
             * (case rope_scaling config of
                  None \<Rightarrow> 1
                | Some rs \<Rightarrow>
                    if rs_get rs ''mscale_all_dim'' 0 \<noteq> 0
                    then yarn_get_mscale (rs_get rs ''factor'' 1) (rs_get rs ''mscale_all_dim'' 0)
                         * yarn_get_mscale (rs_get rs ''factor'' 1)
                             (rs_get rs ''mscale_all_dim'' 0)
                    else 1)"
proof -
  define d where "d = qk_nope_head_dim config + qk_rope_head_dim config"
  have p: "pow_neg_half d = Inr (real d powr (- (1 / 2)))"
    using assms(2) by (simp add: pow_neg_half_def d_def)
  obtain q where q: "q_projection_init config d = Inr q"
    using q_projection_init_ok [OF assms(1,6)] by blast
  have hv: "0 < num_attention_heads config * v_head_dim config" using assms(4,5) by simp
  obtain rope where r: "rope_init config (real d powr (- (1 / 2))) =
           Inr (real d powr (- (1 / 2)) *
                (case rope_scaling config of
                           None \<Rightarrow> 1
                         | Some rs \<Rightarrow>
                             if rs_get rs ''mscale_all_dim'' 0 \<noteq> 0
                             then yarn_get_mscale (rs_get rs ''factor'' 1)
                                    (rs_get rs ''mscale_all_dim'' 0)
                                  * yarn_get_mscale (rs_get rs ''factor'' 1)
                                      (rs_get rs ''mscale_all_dim'' 0)
                             else 1), rope)"
    using rope_init_ok [OF assms(7)] by blast
  show ?thesis
    unfolding DeepseekV2Attention_init_def Let_def d_def [symmetric] p bind_Inr q
      Linear_init_ok [OF assms(1)] Linear_init_ok [OF assms(3)] Linear_init_ok [OF hv] r
    by simp
qed

text \<open>
  C8. For every configuration with positive hidden size, query head dimension, latent rank,
  head count and value head dimension (and a nonzero \<^verbatim>\<open>q_lora_rank\<close> if one is given), and,
  where rope scaling with a nonzero \<^verbatim>\<open>mscale_all_dim\<close> is configured, YaRN parameters with
  which the rotary module can be built (even rotary dimension, a positive base other than
  1, positive \<^verbatim>\<open>beta_fast\<close>, \<^verbatim>\<open>beta_slow\<close> and original context length, nonzero \<open>mscale\<close>),
  the constructor of the latent attention returns a module whose scale is
  \<open>q_head_dim ** -0.5\<close> when no rope scaling is configured or its \<^verbatim>\<open>mscale_all_dim\<close> is absent
  or zero, and \<open>q_head_dim ** -0.5\<close> times the square of \<open>mscale\<close> when rope scaling with a
  nonzero \<^verbatim>\<open>mscale_all_dim\<close> is configured, where \<open>mscale\<close> is 1 if the factor is at most 1
  and \<open>0.1 \<sqdot> mscale_all_dim \<sqdot> ln factor + 1\<close> otherwise (the factor defaults to 1).
\<close>

theorem DeepseekV2Attention_scale:
  assumes "0 < hidden_size config"
    and "0 < qk_nope_head_dim config + qk_rope_head_dim config"
    and "0 < kv_lora_rank config"
    and "0 < num_attention_heads config" and "0 < v_head_dim config"
    and "q_lora_rank config \<noteq> Some 0"
    and "\<forall>rs. rope_scaling config = Some rs \<longrightarrow> rs_get rs ''mscale_all_dim'' 0 \<noteq> 0 \<longrightarrow>
             even (qk_rope_head_dim config) \<and> 0 < rope_theta config \<and> rope_theta config \<noteq> 1 \<and>
             0 < rs_get rs ''beta_fast'' 32 \<and> 0 < rs_get rs ''beta_slow'' 1 \<and>
             0 < rs_get rs ''original_max_position_embeddings'' 4096 \<and>
             yarn_get_mscale (rs_get rs ''factor'' 1) (rs_get rs ''mscale_all_dim'' 0) \<noteq> 0"
  shows "\<exists>a. DeepseekV2Attention_init config = Inr a \<and>
           dv_q_head_dim a = qk_nope_head_dim config + qk_rope_head_dim config \<and>
           dv_scale a =
             (case rope_scaling config of
                None \<Rightarrow> real (dv_q_head_dim a) powr (- (1 / 2))
              | Some rs \<Rightarrow>
                  (case rs_num rs ''mscale_all_dim'' of
                     None \<Rightarrow> real (dv_q_head_dim a) powr (- (1 / 2))
                   | Some mad \<Rightarrow>
                       if mad = 0 then real (dv_q_head_dim a) powr (- (1 / 2))
                       else real (dv_q_head_dim a) powr (- (1 / 2))
                            * (let factor = (case rs_num rs ''factor'' of None \<Rightarrow> 1 | Some f \<Rightarrow> f)
                               in if factor \<le> 1 then 1 else 0.1 * mad * ln factor + 1)\<^sup>2))"
proof -
  from DeepseekV2Attention_init_ok [OF assms]
  obtain a where a: "DeepseekV2Attention_init config = Inr a"
    and d: "dv_q_head_dim a = qk_nope_head_dim config + qk_rope_head_dim config"
    and s: "dv_scale a =
             real (qk_nope_head_dim config + qk_rope_head_dim config) powr (- (1 / 2))
             * (case rope_scaling config of
                  None \<Rightarrow> 1
                | Some rs \<Rightarrow>
                    if rs_get rs ''mscale_all_dim'' 0 \<noteq> 0
                    then yarn_get_mscale (rs_get rs ''factor'' 1) (rs_get rs ''mscale_all_dim'' 0)
                         * yarn_get_mscale (rs_get rs ''factor'' 1)
                             (rs_get rs ''mscale_all_dim'' 0)
                    else 1)"
    by blast
  have "dv_scale a =
             (case rope_scaling config of
                None \<Rightarrow> real (dv_q_head_dim a) powr (- (1 / 2))
              | Some rs \<Rightarrow>
                  (case rs_num rs ''mscale_all_dim'' of
                     None \<Rightarrow> real (dv_q_head_dim a) powr (- (1 / 2))
                   | Some mad \<Rightarrow>
                       if mad = 0 then real (dv_q_head_dim a) powr (- (1 / 2))
                       else real (dv_q_head_dim a) powr (- (1 / 2))
                            * (let factor = (case rs_num rs ''factor'' of None \<Rightarrow> 1 | Some f \<Rightarrow> f)
                               in if factor \<le> 1 then 1 else 0.1 * mad * ln factor + 1)\<^sup>2))"
    unfolding s d
    by (simp add: rs_get_def yarn_get_mscale_def power2_eq_square Let_def split: option.splits)
  with a d show ?thesis by blast
qed

lemma yarn_get_mscale_40_1: "yarn_get_mscale 40 1 \<noteq> 0"
proof -
  have "ln (40::real) > 0" by simp
  then have "ln (40::real) / 10 + 1 > 0" by (simp add: add_pos_pos)
  then show ?thesis by (simp add: yarn_get_mscale_def)
qed

theorem DeepseekV2Attention_scale_witness:
  "(\<exists>a. DeepseekV2Attention_init config_yarn = Inr a \<and>
        dv_scale a = 16 powr (- (1 / 2)) * (0.1 * 1 * ln 40 + 1)\<^sup>2) \<and>
   (\<exists>a. DeepseekV2Attention_init config_10_3 = Inr a \<and> dv_scale a = 4 powr (- (1 / 2)))"
proof -
  have y: "\<exists>a. DeepseekV2Attention_init config_yarn = Inr a \<and>
        dv_scale a = 16 powr (- (1 / 2)) * (0.1 * 1 * ln 40 + 1)\<^sup>2"
    using DeepseekV2Attention_scale [of config_yarn] yarn_get_mscale_40_1
    by (auto simp: config_yarn_def rs_get_def)
  have p: "\<exists>a. DeepseekV2Attention_init config_10_3 = Inr a \<and> dv_scale a = 4 powr (- (1 / 2))"
    using DeepseekV2Attention_scale [of config_10_3]
    by (auto simp: config_10_3_def)
  from y p show ?thesis ..
qed

section \<open>YaRN with a scaling factor of at most one\<close>








lemma fast_rope_odd:
  "odd dims \<Longrightarrow> fast_rope x dims traditional src scale offset = Inl ValueError"
  by (simp add: fast_rope_def)












lemma upt_0_4: "[0..<4] = [0, 1, 2, 3]"
  by code_simp







section \<open>Broadcasting of equal shapes\<close>

lemma broadcast_shapes_rev_same: "broadcast_shapes_rev xs xs = Inr xs"
  by (induction xs) (simp_all add: bind_def)

lemma broadcast_shapes_same: "broadcast_shapes s s = Inr s"
  by (simp add: broadcast_shapes_def broadcast_shapes_rev_same bind_def)

lemma broadcast_shapes_rev_error: "broadcast_shapes_rev xs ys = Inl e \<Longrightarrow> e = ValueError"
  by (induction xs ys rule: broadcast_shapes_rev.induct)
     (auto simp: bind_def split: if_splits sum.splits)

lemma broadcast_shapes_error: "broadcast_shapes a b = Inl e \<Longrightarrow> e = ValueError"
  by (auto simp: broadcast_shapes_def bind_def split: sum.splits dest: broadcast_shapes_rev_error)

lemma concat_blocks:
  "concat (map (\<lambda>i. take n (drop (i * n) xs)) [0..<k]) = take (k * n) xs"
proof (induction k)
  case 0
  show ?case by simp
next
  case (Suc k)
  have "take (k * n) xs @ take n (drop (k * n) xs) = take (k * n + n) xs"
    by (simp add: take_add)
  with Suc show ?case by (simp add: add.commute)
qed

lemma bcast_same: "length xs = prod_list s \<Longrightarrow> bcast s s xs = xs"
proof (induction s arbitrary: xs)
  case Nil
  show ?case by simp
next
  case (Cons t ts)
  have blk: "bcast ts ts (take (prod_list ts) (drop (i * prod_list ts) xs))
               = take (prod_list ts) (drop (i * prod_list ts) xs)" if "i < t" for i
  proof (rule Cons.IH)
    have "(i + 1) * prod_list ts \<le> t * prod_list ts" using that by (intro mult_le_mono1) simp
    then show "length (take (prod_list ts) (drop (i * prod_list ts) xs)) = prod_list ts"
      using Cons.prems by simp
  qed
  have m: "map (\<lambda>i. bcast ts ts (take (prod_list ts) (drop (i * prod_list ts) xs))) [0..<t]
            = map (\<lambda>i. take (prod_list ts) (drop (i * prod_list ts) xs)) [0..<t]"
    by (rule map_cong) (simp_all add: blk)
  have "bcast (t # ts) (t # ts) xs =
          concat (map (\<lambda>i. bcast ts ts (take (prod_list ts) (drop (i * prod_list ts) xs)))
                    [0..<t])"
    by (cases "t = 1") simp_all
  also have "\<dots> = concat (map (\<lambda>i. take (prod_list ts) (drop (i * prod_list ts) xs)) [0..<t])"
    by (simp only: m)
  also have "\<dots> = take (t * prod_list ts) xs" by (rule concat_blocks)
  finally show ?case using Cons.prems by simp
qed

lemma broadcast_to_same: "wf_tensor t \<Longrightarrow> broadcast_to t (shape t) = data t"
  by (simp add: broadcast_to_def wf_tensor_def bcast_same)

lemma mx_where_same_shape:
  assumes "wf_tensor c" "wf_tensor x" "wf_tensor y" "shape x = shape c" "shape y = shape c"
  shows "mx_where c x y =
           Inr (Tensor (shape c)
                  (map (\<lambda>(c', x', y'). if c' then x' else y')
                     (zip (data c) (zip (data x) (data y)))))"
  using assms broadcast_to_same [of c] broadcast_to_same [of x] broadcast_to_same [of y]
  by (simp add: mx_where_def broadcast_shapes_same bind_def)

lemma mx_where_error: "mx_where c x y = Inl e \<Longrightarrow> e = ValueError"
  by (auto simp: mx_where_def bind_def split: sum.splits dest: broadcast_shapes_error)

lemma expand_dims_last:
  "expand_dims t (- 1) = Inr (Tensor (shape t @ [1]) (data t))"
  by (simp add: expand_dims_def Let_def)

lemma mask_expanded:
  "bind (expand_dims (tmap f ids) (- 1)) (\<lambda>m. mx_repeat_last m E) =
     Inr (Tensor (shape ids @ [E]) (concat (map (replicate E) (map f (data ids)))))"
  by (simp add: expand_dims_last bind_def mx_repeat_last_def tmap_def)

section \<open>Scattering into the positions of a mask\<close>

lemma np_where_snoc:
  "np_where (m @ [b]) = np_where m @ (if b then [length m] else [])"
proof -
  have "filter (\<lambda>i. (m @ [b]) ! i) [0..<length m] = filter (\<lambda>i. m ! i) [0..<length m]"
    by (rule filter_cong) (simp_all add: nth_append)
  then show ?thesis by (simp add: np_where_def)
qed

lemma length_np_where: "length (np_where m) = length (filter id m)"
proof (induction m rule: rev_induct)
  case Nil
  show ?case by (simp add: np_where_def)
next
  case (snoc b m)
  then show ?case by (simp add: np_where_snoc)
qed

lemma np_where_bound: "i \<in> set (np_where m) \<Longrightarrow> i < length m"
  by (simp add: np_where_def)

lemma fold_update_append:
  "\<forall>(i, v) \<in> set ps. i < length xs \<Longrightarrow>
   fold (\<lambda>(i, v) a. a[i := v]) ps (xs @ ys) = fold (\<lambda>(i, v) a. a[i := v]) ps xs @ ys"
  by (induction ps arbitrary: xs) (auto simp: list_update_append1)

lemma count_true_before:
  assumes "q < length m" "m ! q"
  shows "length (filter id (take q m)) < length (filter id m)"
proof -
  have "m = take q m @ m ! q # drop (Suc q) m" using assms(1) by (rule id_take_nth_drop)
  then have "filter id m = filter id (take q m) @ filter id (m ! q # drop (Suc q) m)"
    by (metis filter_append)
  then show ?thesis using assms(2) by simp
qed

lemma scatter_positions:
  assumes "length vals = length (np_where m)" "length xs = length m"
  shows "fold (\<lambda>(i, v) a. a[i := v]) (zip (np_where m) vals) xs =
           map (\<lambda>q. if m ! q then vals ! length (filter id (take q m)) else xs ! q)
             [0..<length m]"
  using assms
proof (induction m arbitrary: xs vals rule: rev_induct)
  case Nil
  then show ?case by (simp add: np_where_def)
next
  case (snoc b m)
  let ?F = "\<lambda>q. if (m @ [b]) ! q
                  then vals ! length (filter id (take q (m @ [b]))) else xs ! q"
  have xne: "xs \<noteq> []" using snoc.prems(2) by auto
  define xs' where "xs' = butlast xs"
  define x where "x = last xs"
  have xs: "xs = xs' @ [x]" using xne by (simp add: xs'_def x_def)
  have lx: "length xs' = length m" using snoc.prems(2) by (simp add: xs'_def)
  have xl: "xs ! length m = x" using nth_append_length [of xs' x "[]"] lx by (simp add: xs)
  have bl: "(m @ [b]) ! length m = b" by simp
  have split: "map ?F [0..<length (m @ [b])] = map ?F [0..<length m] @ [?F (length m)]"
    by simp
  show ?case
  proof (cases b)
    case True
    have vne: "vals \<noteq> []" using snoc.prems(1) True by (auto simp: np_where_snoc)
    define vals' where "vals' = butlast vals"
    define v where "v = last vals"
    have vals: "vals = vals' @ [v]" using vne by (simp add: vals'_def v_def)
    have lv: "length vals' = length (np_where m)"
      using snoc.prems(1) True by (simp add: vals'_def np_where_snoc)
    let ?G = "\<lambda>q. if m ! q then vals' ! length (filter id (take q m)) else xs' ! q"
    have bound: "\<forall>(i, v) \<in> set (zip (np_where m) vals'). i < length xs'"
      using lx by (auto dest: set_zip_leftD np_where_bound)
    have ih: "fold (\<lambda>(i, v) a. a[i := v]) (zip (np_where m) vals') xs' = map ?G [0..<length m]"
      using snoc.IH [OF lv lx] .
    have meq: "map ?G [0..<length m] = map ?F [0..<length m]"
    proof (rule map_cong [OF refl])
      fix q assume "q \<in> set [0..<length m]"
      then have q: "q < length m" by simp
      have c: "m ! q \<Longrightarrow> length (filter id (take q m)) < length vals'"
        using count_true_before [OF q] lv by (simp add: length_np_where)
      show "?G q = ?F q"
        using q lx c by (simp add: nth_append vals xs)
    qed
    have vl: "vals ! length (filter id m) = v"
      using nth_append_length [of vals' v "[]"] lv by (simp add: vals length_np_where)
    have fl: "?F (length m) = v" using True vl by simp
    have "fold (\<lambda>(i, v) a. a[i := v]) (zip (np_where (m @ [b])) vals) xs =
          (fold (\<lambda>(i, v) a. a[i := v]) (zip (np_where m) vals') (xs' @ [x]))[length m := v]"
      using True lv by (simp add: np_where_snoc vals xs)
    also have "\<dots> = (map ?G [0..<length m] @ [x])[length m := v]"
      by (simp only: fold_update_append [OF bound] ih)
    also have "\<dots> = map ?G [0..<length m] @ [v]"
      using list_update_length [of "map ?G [0..<length m]" x "[]" v] by simp
    also have "\<dots> = map ?F [0..<length (m @ [b])]"
      by (simp only: split meq fl)
    finally show ?thesis .
  next
    case False
    let ?G = "\<lambda>q. if m ! q then vals ! length (filter id (take q m)) else xs' ! q"
    have lv: "length vals = length (np_where m)"
      using snoc.prems(1) False by (simp add: np_where_snoc)
    have bound: "\<forall>(i, v) \<in> set (zip (np_where m) vals). i < length xs'"
      using lx by (auto dest: set_zip_leftD np_where_bound)
    have ih: "fold (\<lambda>(i, v) a. a[i := v]) (zip (np_where m) vals) xs' = map ?G [0..<length m]"
      using snoc.IH [OF lv lx] .
    have meq: "map ?G [0..<length m] = map ?F [0..<length m]"
    proof (rule map_cong [OF refl])
      fix q assume "q \<in> set [0..<length m]"
      then have q: "q < length m" by simp
      show "?G q = ?F q"
        using q lx by (simp add: nth_append xs)
    qed
    have fl: "?F (length m) = x" using False xl by simp
    have "fold (\<lambda>(i, v) a. a[i := v]) (zip (np_where (m @ [b])) vals) xs =
          fold (\<lambda>(i, v) a. a[i := v]) (zip (np_where m) vals) (xs' @ [x])"
      using False by (simp add: np_where_snoc xs)
    also have "\<dots> = map ?G [0..<length m] @ [x]"
      by (simp only: fold_update_append [OF bound] ih)
    also have "\<dots> = map ?F [0..<length (m @ [b])]"
      by (simp only: split meq fl)
    finally show ?thesis .
  qed
qed

lemma length_concat_replicate:
  "length (concat (map (replicate E) m)) = length m * E"
  by (induction m) simp_all

lemma nth_concat_replicate:
  "p < length m \<Longrightarrow> e < E \<Longrightarrow> concat (map (replicate E) m) ! (p * E + e) = m ! p"
proof (induction m arbitrary: p)
  case Nil
  then show ?case by simp
next
  case (Cons x m)
  show ?case
  proof (cases p)
    case 0
    with Cons.prems show ?thesis by (simp add: nth_append)
  next
    case (Suc p')
    with Cons.prems have "concat (map (replicate E) m) ! (p' * E + e) = m ! p'"
      by (intro Cons.IH) simp_all
    moreover have "Suc p' * E + e - E = p' * E + e" by simp
    ultimately show ?thesis using Suc by (simp add: nth_append)
  qed
qed

lemma take_concat_replicate:
  "p < length m \<Longrightarrow> e < E \<Longrightarrow>
   take (p * E + e) (concat (map (replicate E) m)) =
     concat (map (replicate E) (take p m)) @ replicate e (m ! p)"
proof (induction m arbitrary: p)
  case Nil
  then show ?case by simp
next
  case (Cons x m)
  show ?case
  proof (cases p)
    case 0
    with Cons.prems show ?thesis by (simp add: min_def)
  next
    case (Suc p')
    with Cons.prems have "take (p' * E + e) (concat (map (replicate E) m)) =
       concat (map (replicate E) (take p' m)) @ replicate e (m ! p')"
      by (intro Cons.IH) simp_all
    moreover have "Suc p' * E + e - E = p' * E + e" by simp
    ultimately show ?thesis using Suc by simp
  qed
qed

lemma count_concat_replicate:
  "length (filter id (concat (map (replicate E) ys))) = length (filter id ys) * E"
  by (induction ys) simp_all

lemma count_before_expanded:
  assumes "p < length m" "e < E" "m ! p"
  shows "length (filter id (take (p * E + e) (concat (map (replicate E) m)))) =
           length (filter id (take p m)) * E + e"
  using assms by (simp add: take_concat_replicate count_concat_replicate)

lemma take_drop_nth_map:
  "k + n \<le> length xs \<Longrightarrow> take n (drop k xs) = map (\<lambda>e. xs ! (k + e)) [0..<n]"
  by (rule nth_equalityI) simp_all

section \<open>The attention mask as an outer product\<close>

lemma zip_concat_map:
  "(\<And>i. i \<in> set xs \<Longrightarrow> length (f i) = length (g i)) \<Longrightarrow>
   zip (concat (map f xs)) (concat (map g xs)) = concat (map (\<lambda>i. zip (f i) (g i)) xs)"
  by (induction xs) simp_all

lemma block_bound:
  assumes "bi < (b::nat)"
  shows "bi * s + s \<le> b * s"
proof -
  have "(bi + 1) * s \<le> b * s" using assms by (intro mult_le_mono1) simp
  then show ?thesis by simp
qed

lemma bcast_Cons:
  "bcast (s # ss) (t # ts) xs =
     concat (map (\<lambda>i. bcast ss ts
                         (take (prod_list ss) (drop ((if s = 1 then 0 else i) * prod_list ss) xs)))
               [0..<t])"
  by simp

lemma bcast_row:
  assumes "length blk = s"
  shows "bcast [1, s] [s, s] blk = concat (replicate s blk)"
proof -
  have "bcast [s] [s] blk = blk" using assms by (intro bcast_same) simp
  moreover have "take (prod_list [s]) (drop ((if (1::nat) = 1 then 0 else i) * prod_list [s]) blk)
                 = blk" for i
    using assms by simp
  ultimately have "bcast [1, s] [s, s] blk = concat (map (\<lambda>i. blk) [0..<s])"
    unfolding bcast_Cons [of 1 "[s]" s "[s]"] by (simp only:)
  then show ?thesis by (simp only: map_replicate_const length_upt diff_zero)
qed

lemma bcast_scalar: "bcast [1] [s] [c] = replicate s c"
  by (simp add: map_replicate_const)

lemma bcast_col:
  assumes "length blk = s"
  shows "bcast [s, 1] [s, s] blk = concat (map (\<lambda>i. replicate s (blk ! i)) [0..<s])"
proof -
  have m: "map (\<lambda>i. bcast [1] [s]
                     (take (prod_list [1]) (drop ((if s = 1 then 0 else i) * prod_list [1]) blk)))
             [0..<s]
        = map (\<lambda>i. replicate s (blk ! i)) [0..<s]"
  proof (rule map_cong [OF refl])
    fix i assume "i \<in> set [0..<s]"
    then have i: "i < length blk" using assms by simp
    have idx: "(if s = 1 then 0 else i) = i" using i assms by auto
    have t1: "take (prod_list [1]) (drop (i * prod_list [1]) blk) = [blk ! i]"
      using Cons_nth_drop_Suc [OF i, symmetric] by simp
    show "bcast [1] [s]
            (take (prod_list [1]) (drop ((if s = 1 then 0 else i) * prod_list [1]) blk))
          = replicate s (blk ! i)"
      unfolding idx t1 by (rule bcast_scalar)
  qed
  show ?thesis unfolding bcast_Cons [of s "[1]" s "[s]"] m ..
qed

lemma broadcast_row_3d:
  assumes "length d = b * s"
  shows "broadcast_to (Tensor [b, 1, s] d) [b, s, s] =
           concat (map (\<lambda>bi. concat (replicate s (take s (drop (bi * s) d)))) [0..<b])"
proof -
  have m: "map (\<lambda>bi. bcast [1, s] [s, s]
                    (take (prod_list [1, s]) (drop ((if b = 1 then 0 else bi) * prod_list [1, s]) d)))
          [0..<b]
        = map (\<lambda>bi. concat (replicate s (take s (drop (bi * s) d)))) [0..<b]"
  proof (rule map_cong [OF refl])
    fix bi assume "bi \<in> set [0..<b]"
    then have bi: "bi < b" by simp
    have idx: "(if b = 1 then 0 else bi) = bi" using bi by auto
    have p: "prod_list [1, s] = s" by simp
    have len: "length (take s (drop (bi * s) d)) = s"
      using block_bound [OF bi, of s] assms by simp
    show "bcast [1, s] [s, s]
            (take (prod_list [1, s]) (drop ((if b = 1 then 0 else bi) * prod_list [1, s]) d))
          = concat (replicate s (take s (drop (bi * s) d)))"
      unfolding idx p by (rule bcast_row [OF len])
  qed
  have "broadcast_to (Tensor [b, 1, s] d) [b, s, s] = bcast [b, 1, s] [b, s, s] d"
    by (simp add: broadcast_to_def del: bcast.simps)
  then show ?thesis unfolding bcast_Cons [of b "[1, s]" b "[s, s]"] m .
qed

lemma broadcast_col_3d:
  assumes "length d = b * s"
  shows "broadcast_to (Tensor [b, s, 1] d) [b, s, s] =
           concat (map (\<lambda>bi. concat (map (\<lambda>i. replicate s (d ! (bi * s + i))) [0..<s])) [0..<b])"
proof -
  have m: "map (\<lambda>bi. bcast [s, 1] [s, s]
                    (take (prod_list [s, 1]) (drop ((if b = 1 then 0 else bi) * prod_list [s, 1]) d)))
          [0..<b]
        = map (\<lambda>bi. concat (map (\<lambda>i. replicate s (d ! (bi * s + i))) [0..<s])) [0..<b]"
  proof (rule map_cong [OF refl])
    fix bi assume "bi \<in> set [0..<b]"
    then have bi: "bi < b" by simp
    have idx: "(if b = 1 then 0 else bi) = bi" using bi by auto
    have p: "prod_list [s, 1] = s" by simp
    have bnd: "bi * s + s \<le> length d" using block_bound [OF bi, of s] assms by simp
    then have len: "length (take s (drop (bi * s) d)) = s" by simp
    have inner: "map (\<lambda>i. replicate s (take s (drop (bi * s) d) ! i)) [0..<s]
          = map (\<lambda>i. replicate s (d ! (bi * s + i))) [0..<s]"
      by (rule map_cong [OF refl]) (use bnd in simp)
    show "bcast [s, 1] [s, s]
            (take (prod_list [s, 1]) (drop ((if b = 1 then 0 else bi) * prod_list [s, 1]) d))
          = concat (map (\<lambda>i. replicate s (d ! (bi * s + i))) [0..<s])"
      unfolding idx p bcast_col [OF len] inner ..
  qed
  have "broadcast_to (Tensor [b, s, 1] d) [b, s, s] = bcast [b, s, 1] [b, s, s] d"
    by (simp add: broadcast_to_def del: bcast.simps)
  then show ?thesis unfolding bcast_Cons [of b "[s, 1]" b "[s, s]"] m .
qed

lemma zip_row_col:
  fixes d :: "int list"
  assumes "bi * s + s \<le> length d"
  shows "map (\<lambda>(x, y). x * y)
           (zip (concat (replicate s (take s (drop (bi * s) d))))
                (concat (map (\<lambda>i. replicate s (d ! (bi * s + i))) [0..<s])))
         = concat (map (\<lambda>i. map (\<lambda>j. d ! (bi * s + i) * d ! (bi * s + j)) [0..<s]) [0..<s])"
proof -
  let ?row = "take s (drop (bi * s) d)"
  have row: "?row = map (\<lambda>j. d ! (bi * s + j)) [0..<s]"
    using assms by (rule take_drop_nth_map)
  have lrow: "length ?row = s" using assms by simp
  have rep: "concat (replicate s ?row) = concat (map (\<lambda>i. ?row) [0..<s])"
    by (simp only: map_replicate_const length_upt diff_zero)
  have z: "zip (concat (map (\<lambda>i. ?row) [0..<s]))
               (concat (map (\<lambda>i. replicate s (d ! (bi * s + i))) [0..<s]))
           = concat (map (\<lambda>i. zip ?row (replicate s (d ! (bi * s + i)))) [0..<s])"
    by (rule zip_concat_map) (simp only: lrow length_replicate)
  have zr: "zip ?row (replicate s c) = map (\<lambda>j. (d ! (bi * s + j), c)) [0..<s]" for c
    unfolding row by (rule nth_equalityI) simp_all
  have "map (\<lambda>(x, y). x * y) (concat (map (\<lambda>i. map (\<lambda>j. (d ! (bi * s + j), d ! (bi * s + i))) [0..<s])
                                          [0..<s]))
        = concat (map (\<lambda>i. map (\<lambda>j. d ! (bi * s + i) * d ! (bi * s + j)) [0..<s]) [0..<s])"
    by (simp add: map_concat comp_def mult.commute)
  then show ?thesis unfolding rep z zr .
qed


lemma length_concat_const:
  "(\<And>x. x \<in> set xs \<Longrightarrow> length (f x) = n) \<Longrightarrow> length (concat (map f xs)) = length xs * n"
  by (induction xs) simp_all

lemma length_concat_replicate_list: "length (concat (replicate k xs)) = k * length xs"
  by (induction k) simp_all

lemma outer_product_data:
  fixes d :: "int list"
  assumes "length d = b * s"
  shows "map (\<lambda>(x, y). x * y)
           (zip (broadcast_to (Tensor [b, 1, s] d) [b, s, s])
                (broadcast_to (Tensor [b, s, 1] d) [b, s, s]))
         = concat (map (\<lambda>bi. concat (map (\<lambda>i. map (\<lambda>j. d ! (bi * s + i) * d ! (bi * s + j))
                                                  [0..<s]) [0..<s]))
                     [0..<b])"
proof -
  let ?f = "\<lambda>bi. concat (replicate s (take s (drop (bi * s) d)))"
  let ?g = "\<lambda>bi. concat (map (\<lambda>i. replicate s (d ! (bi * s + i))) [0..<s])"
  have lens: "length (?f bi) = length (?g bi)" if "bi \<in> set [0..<b]" for bi
  proof -
    have "bi < b" using that by simp
    then have "length (take s (drop (bi * s) d)) = s"
      using block_bound [of bi b s] assms by simp
    then have "length (?f bi) = s * s" by (simp only: length_concat_replicate_list)
    moreover have "length (?g bi) = length [0..<s] * s"
      by (rule length_concat_const) simp
    ultimately show ?thesis by simp
  qed
  have z: "zip (concat (map ?f [0..<b])) (concat (map ?g [0..<b]))
           = concat (map (\<lambda>bi. zip (?f bi) (?g bi)) [0..<b])"
    by (rule zip_concat_map) (rule lens)
  have blk: "map (\<lambda>bi. map (\<lambda>(x, y). x * y) (zip (?f bi) (?g bi))) [0..<b]
             = map (\<lambda>bi. concat (map (\<lambda>i. map (\<lambda>j. d ! (bi * s + i) * d ! (bi * s + j))
                                                  [0..<s]) [0..<s])) [0..<b]"
  proof (rule map_cong [OF refl])
    fix bi assume "bi \<in> set [0..<b]"
    then have "bi * s + s \<le> length d" using block_bound [of bi b s] assms by simp
    then show "map (\<lambda>(x, y). x * y) (zip (?f bi) (?g bi))
               = concat (map (\<lambda>i. map (\<lambda>j. d ! (bi * s + i) * d ! (bi * s + j)) [0..<s]) [0..<s])"
      by (rule zip_row_col)
  qed
  have "map (\<lambda>(x, y). x * y) (concat (map (\<lambda>bi. zip (?f bi) (?g bi)) [0..<b]))
        = concat (map (\<lambda>bi. map (\<lambda>(x, y). x * y) (zip (?f bi) (?g bi))) [0..<b])"
    by (simp only: map_concat map_map comp_def)
  then show ?thesis
    unfolding broadcast_row_3d [OF assms] broadcast_col_3d [OF assms] z blk .
qed

section \<open>The fused embedding\<close>

lemma mask_expanded_bind:
  "bind (expand_dims (tmap f ids) (- 1)) (\<lambda>m. bind (mx_repeat_last m E) k) =
     k (Tensor (shape ids @ [E]) (concat (map (replicate E) (map f (data ids)))))"
  by (simp add: expand_dims_last bind_Inr mx_repeat_last_def tmap_def)

lemma prepare_unfold:
  assumes "shape image_features = [N, T, E]" "shape input_ids = [B, S]"
  shows "prepare_inputs_for_multimodal h pad img image_features inputs_embeds input_ids am =
    bind (mx_where (Tensor [B, S, E] (concat (map (replicate E)
                      (map (\<lambda>i. i \<noteq> img \<and> i \<noteq> (case pad of None \<Rightarrow> 0 | Some p \<Rightarrow> p))
                         (data input_ids)))))
            inputs_embeds (mx_zeros [B, S, E])) (\<lambda>final_embedding.
    bind (mx_where (Tensor [B, S, E] (concat (map (replicate E)
                      (map (\<lambda>i. i = (case pad of None \<Rightarrow> 0 | Some p \<Rightarrow> p)) (data input_ids)))))
            (mx_zeros_like final_embedding) final_embedding) (\<lambda>final_embedding.
    bind (masked_scatter final_embedding
            (Tensor [B, S, E] (concat (map (replicate E)
                      (map (\<lambda>i. i = img) (data input_ids)))))
            (tmap (\<lambda>v. v / sqrt (real h)) image_features)) (\<lambda>final_embedding.
      case am of
        None \<Rightarrow> Inl TypeError
      | Some attention_mask' \<Rightarrow>
          bind (expand_dims attention_mask' 1) (\<lambda>attention_mask_expanded_1.
          bind (expand_dims attention_mask' 2) (\<lambda>attention_mask_expanded_2.
          bind (mx_binop (*) attention_mask_expanded_1 attention_mask_expanded_2)
            (\<lambda>final_attention_mask_4d.
          bind (expand_dims final_attention_mask_4d 1) (\<lambda>final_attention_mask_4d.
            Inr (final_embedding, final_attention_mask_4d))))))))"
  unfolding prepare_inputs_for_multimodal_def assms Let_def list.case mask_expanded_bind
  by (simp add: assms)


lemma expand_dims_2d:
  assumes "shape am = [b, s]"
  shows "expand_dims am 1 = Inr (Tensor [b, 1, s] (data am))"
    and "expand_dims am 2 = Inr (Tensor [b, s, 1] (data am))"
  using assms by (simp_all add: expand_dims_def Let_def)

lemma broadcast_shapes_outer: "broadcast_shapes [b, 1, s] [b, s, 1] = Inr [b, s, s]"
  by (simp add: broadcast_shapes_def bind_def)

lemma expand_dims_3d:
  "expand_dims (Tensor [b, s, s'] d) 1 = Inr (Tensor [b, 1, s, s'] d)"
  by (simp add: expand_dims_def Let_def)

lemma mask_4d:
  assumes sh: "shape am = [b, s]" and wf: "wf_tensor am"
  shows "bind (expand_dims am 1) (\<lambda>e1. bind (expand_dims am 2) (\<lambda>e2.
           bind (mx_binop (*) e1 e2) (\<lambda>m. bind (expand_dims m 1) (\<lambda>m4. Inr (X, m4))))) =
         Inr (X, outer_product_mask am)"
proof -
  have len: "length (data am) = b * s" using sh wf by (simp add: wf_tensor_def)
  show ?thesis
    unfolding expand_dims_2d [OF sh] bind_Inr mx_binop_def tensor.sel broadcast_shapes_outer
      expand_dims_3d outer_product_mask_def sh list.case outer_product_data [OF len] ..
qed

lemma fusion_vectors:
  assumes wf_f: "wf_tensor image_features" and sh_f: "shape image_features = [N, T, E]"
    and wf_i: "wf_tensor input_ids" and sh_i: "shape input_ids = [B, S]"
    and wf_e: "wf_tensor inputs_embeds" and sh_e: "shape inputs_embeds = [B, S, E]"
    and am: "attention_mask = Some am" and sh_a: "shape am = [b, s]" and wf_a: "wf_tensor am"
    and cnt: "length (filter (\<lambda>i. i = img) (data input_ids)) = N * T"
    and pos: "0 < B" "0 < S" "0 < E"
  shows "\<exists>emb. prepare_inputs_for_multimodal h pad img image_features inputs_embeds
                 input_ids attention_mask = Inr (emb, outer_product_mask am) \<and>
           shape emb = [B, S, E] \<and> wf_tensor emb \<and>
           (\<forall>p < B * S.
              vec emb p =
                (if data input_ids ! p = img
                 then map (\<lambda>v. v / sqrt (real h))
                        (vec image_features (image_rank img input_ids p))
                 else if data input_ids ! p = (case pad of None \<Rightarrow> 0 | Some p \<Rightarrow> p)
                 then replicate E 0
                 else vec inputs_embeds p))"
proof -
  define ids where "ids = data input_ids"
  define pad' where "pad' = (case pad of None \<Rightarrow> (0::int) | Some p \<Rightarrow> p)"
  define TM where "TM = concat (map (replicate E) (map (\<lambda>i. i \<noteq> img \<and> i \<noteq> pad') ids))"
  define PM where "PM = concat (map (replicate E) (map (\<lambda>i. i = pad') ids))"
  define IM where "IM = concat (map (replicate E) (map (\<lambda>i. i = img) ids))"
  define Z where "Z = replicate (B * S * E) (0::real)"
  define ED where "ED = data inputs_embeds"
  define F1 where "F1 = map (\<lambda>(c', x', y'). if c' then x' else y') (zip TM (zip ED Z))"
  define F2 where "F2 = map (\<lambda>(c', x', y'). if c' then x' else y') (zip PM (zip Z F1))"
  define vals where "vals = map (\<lambda>v. v / sqrt (real h)) (data image_features)"
  define R where
    "R = map (\<lambda>q. if IM ! q then vals ! length (filter id (take q IM)) else F2 ! q)
           [0..<length IM]"
  have l_ids: "length ids = B * S" using wf_i sh_i by (simp add: wf_tensor_def ids_def)
  have l_TM: "length TM = B * S * E"
    unfolding TM_def length_concat_replicate by (simp add: l_ids)
  have l_PM: "length PM = B * S * E"
    unfolding PM_def length_concat_replicate by (simp add: l_ids)
  have l_IM: "length IM = B * S * E"
    unfolding IM_def length_concat_replicate by (simp add: l_ids)
  have l_Z: "length Z = B * S * E" by (simp add: Z_def)
  have l_ED: "length ED = B * S * E" using wf_e sh_e by (simp add: wf_tensor_def ED_def)
  have l_F1: "length F1 = B * S * E" by (simp add: F1_def l_TM l_ED l_Z)
  have l_F2: "length F2 = B * S * E" by (simp add: F2_def l_PM l_F1 l_Z)
  have l_vals: "length vals = N * T * E" using wf_f sh_f by (simp add: wf_tensor_def vals_def)
  have l_R: "length R = B * S * E" by (simp add: R_def l_IM)
  have zeros: "mx_zeros [B, S, E] = Tensor [B, S, E] Z" by (simp add: mx_zeros_def Z_def)
  have w1: "mx_where (Tensor [B, S, E] TM) inputs_embeds (mx_zeros [B, S, E])
              = Inr (Tensor [B, S, E] F1)"
    unfolding zeros
    using mx_where_same_shape [of "Tensor [B, S, E] TM" inputs_embeds "Tensor [B, S, E] Z"]
      wf_e sh_e l_TM l_Z
    by (simp add: wf_tensor_def F1_def ED_def)
  have w2: "mx_where (Tensor [B, S, E] PM) (mx_zeros_like (Tensor [B, S, E] F1))
              (Tensor [B, S, E] F1) = Inr (Tensor [B, S, E] F2)"
    unfolding mx_zeros_like_def tensor.sel zeros
    using mx_where_same_shape [of "Tensor [B, S, E] PM" "Tensor [B, S, E] Z"
        "Tensor [B, S, E] F1"] l_PM l_Z l_F1
    by (simp add: wf_tensor_def F2_def)
  have cnt_IM: "length (np_where IM) = length vals"
    unfolding length_np_where IM_def count_concat_replicate
    using cnt by (simp add: l_vals ids_def filter_map comp_def)
  have ne_F2: "F2 \<noteq> []" using l_F2 pos by auto
  have sc: "masked_scatter (Tensor [B, S, E] F2) (Tensor [B, S, E] IM)
              (tmap (\<lambda>v. v / sqrt (real h)) image_features) = Inr (Tensor [B, S, E] R)"
    using scatter_positions [of vals IM F2] cnt_IM l_F2 l_IM ne_F2
    by (simp add: masked_scatter_def Let_def tmap_def setitem_def bind_Inr vals_def [symmetric]
        R_def)
  have res: "prepare_inputs_for_multimodal h pad img image_features inputs_embeds
                 input_ids attention_mask = Inr (Tensor [B, S, E] R, outer_product_mask am)"
    unfolding prepare_unfold [OF sh_f sh_i] pad'_def [symmetric] ids_def [symmetric]
      TM_def [symmetric] PM_def [symmetric] IM_def [symmetric] w1 bind_Inr w2 sc am
      option.case mask_4d [OF sh_a wf_a] ..
  have vecs: "vec (Tensor [B, S, E] R) p =
                (if ids ! p = img
                 then map (\<lambda>v. v / sqrt (real h))
                        (vec image_features (image_rank img input_ids p))
                 else if ids ! p = pad'
                 then replicate E 0
                 else vec inputs_embeds p)" if p: "p < B * S" for p
  proof -
    have pE: "p * E + E \<le> B * S * E"
    proof -
      have "(p + 1) * E \<le> (B * S) * E" using p by (intro mult_le_mono1) simp
      then show ?thesis by simp
    qed
    have bound: "p * E + e < B * S * E" if "e < E" for e using pE that by simp
    have v: "vec (Tensor [B, S, E] R) p = map (\<lambda>e. R ! (p * E + e)) [0..<E]"
      using pE l_R by (simp add: vec_def take_drop_nth_map)
    have ve: "vec inputs_embeds p = map (\<lambda>e. ED ! (p * E + e)) [0..<E]"
      using pE l_ED sh_e by (simp add: vec_def take_drop_nth_map ED_def)
    have tm: "TM ! (p * E + e) = (ids ! p \<noteq> img \<and> ids ! p \<noteq> pad')" if "e < E" for e
      unfolding TM_def
      using nth_concat_replicate [of p "map (\<lambda>i. i \<noteq> img \<and> i \<noteq> pad') ids" e E] p that l_ids
      by simp
    have pm: "PM ! (p * E + e) = (ids ! p = pad')" if "e < E" for e
      unfolding PM_def
      using nth_concat_replicate [of p "map (\<lambda>i. i = pad') ids" e E] p that l_ids by simp
    have im: "IM ! (p * E + e) = (ids ! p = img)" if "e < E" for e
      unfolding IM_def
      using nth_concat_replicate [of p "map (\<lambda>i. i = img) ids" e E] p that l_ids by simp
    have f1: "F1 ! (p * E + e) = (if TM ! (p * E + e) then ED ! (p * E + e) else 0)"
      if "e < E" for e
      using bound [OF that] l_TM l_ED l_Z by (simp add: F1_def Z_def)
    have f2: "F2 ! (p * E + e) = (if PM ! (p * E + e) then 0 else F1 ! (p * E + e))"
      if "e < E" for e
      using bound [OF that] l_PM l_F1 l_Z by (simp add: F2_def Z_def)
    have r: "R ! (p * E + e) =
               (if IM ! (p * E + e) then vals ! length (filter id (take (p * E + e) IM))
                else F2 ! (p * E + e))" if "e < E" for e
      using bound [OF that] l_IM by (simp add: R_def)
    show ?thesis
    proof (cases "ids ! p = img")
      case True
      define j where "j = image_rank img input_ids p"
      have j_eq: "length (filter id (take p (map (\<lambda>i. i = img) ids))) = j"
        by (simp add: j_def image_rank_def ids_def take_map filter_map comp_def)
      have j_lt: "j < N * T"
        using count_true_before [of p "map (\<lambda>i. i = img) ids"] p l_ids True cnt j_eq
        by (simp add: ids_def filter_map comp_def)
      have jE: "j * E + E \<le> N * T * E"
      proof -
        have "(j + 1) * E \<le> (N * T) * E" using j_lt by (intro mult_le_mono1) simp
        then show ?thesis by simp
      qed
      have c: "length (filter id (take (p * E + e) IM)) = j * E + e" if "e < E" for e
        unfolding IM_def
        using count_before_expanded [of p "map (\<lambda>i. i = img) ids" e E] p that l_ids True j_eq
        by simp
      have "vec (Tensor [B, S, E] R) p = map (\<lambda>e. vals ! (j * E + e)) [0..<E]"
        unfolding v by (rule map_cong) (simp_all add: r im True c)
      also have "\<dots> = take E (drop (j * E) vals)"
        using jE l_vals by (simp add: take_drop_nth_map)
      also have "\<dots> = map (\<lambda>v. v / sqrt (real h)) (vec image_features j)"
        by (simp add: vals_def vec_def sh_f take_map drop_map)
      finally show ?thesis using True by (simp add: j_def)
    next
      case False
      have r': "R ! (p * E + e) = F2 ! (p * E + e)" if "e < E" for e
        using r [OF that] im [OF that] False by simp
      show ?thesis
      proof (cases "ids ! p = pad'")
        case True
        have f2': "F2 ! (p * E + e) = 0" if "e < E" for e
          using f2 [OF that] pm [OF that] True by simp
        have "vec (Tensor [B, S, E] R) p = map (\<lambda>e. 0) [0..<E]"
          unfolding v by (rule map_cong) (simp_all add: r' f2')
        also have "\<dots> = replicate E 0" by (simp add: map_replicate_const)
        finally show ?thesis using False True by simp
      next
        case nopad: False
        have f2': "F2 ! (p * E + e) = ED ! (p * E + e)" if "e < E" for e
          using f2 [OF that] pm [OF that] f1 [OF that] tm [OF that] False nopad by simp
        have "vec (Tensor [B, S, E] R) p = map (\<lambda>e. ED ! (p * E + e)) [0..<E]"
          unfolding v by (rule map_cong) (simp_all add: r' f2')
        then show ?thesis using False nopad by (simp add: ve)
      qed
    qed
  qed
  have "wf_tensor (Tensor [B, S, E] R)" by (simp add: wf_tensor_def l_R)
  with res vecs show ?thesis
    by (intro exI [of _ "Tensor [B, S, E] R"]) (simp add: ids_def pad'_def)
qed

lemma flat_index_bound:
  assumes "b < (B::nat)" "s < S"
  shows "b * S + s < B * S"
proof -
  have "b * S + s < b * S + S" using assms(2) by simp
  also have "\<dots> = (b + 1) * S" by simp
  also have "\<dots> \<le> B * S" using assms(1) by (intro mult_le_mono1) simp
  finally show ?thesis .
qed

text \<open>
  C1. For token ids of shape \<open>[B, S]\<close> with \<open>n\<close> image-token positions, \<open>n = N \<sqdot> T\<close>
  supplied feature vectors of width \<open>E\<close> (features of shape \<open>[N, T, E]\<close>), text embeddings
  of shape \<open>[B, S, E]\<close>, a validity mask of shape \<open>[B, S]\<close>, a positive hidden size and
  positive \<open>B\<close>, \<open>S\<close> and \<open>E\<close> (the scatter raises on an empty embedding),
  \<^verbatim>\<open>prepare_inputs_for_multimodal\<close> returns a fused embedding of shape \<open>[B, S, E]\<close> whose
  vector at batch \<open>b\<close>, position \<open>s\<close> is: at an image-token position the feature vector
  scaled by \<open>1 / sqrt hidden_size\<close> whose index among the flattened features is the number
  of image-token positions before \<open>(b, s)\<close> in row-major order; at a pad position (that is
  not also an image position) the zero vector; at any other position the text embedding.
\<close>

theorem fusion_exact:
  assumes "wf_tensor image_features" and "shape image_features = [N, T, E]"
    and "wf_tensor input_ids" and "shape input_ids = [B, S]"
    and "wf_tensor inputs_embeds" and "shape inputs_embeds = [B, S, E]"
    and "attention_mask = Some am" and "shape am = [B, S]" and "wf_tensor am"
    and "0 < hidden"
    and "length (filter (\<lambda>i. i = image_token_index) (data input_ids)) = N * T"
    and "0 < B" and "0 < S" and "0 < E"
  shows "\<exists>emb m4.
           prepare_inputs_for_multimodal hidden pad_token_id image_token_index image_features
             inputs_embeds input_ids attention_mask = Inr (emb, m4) \<and>
           shape emb = [B, S, E] \<and>
           (\<forall>b < B. \<forall>s < S.
              vec emb (b * S + s) =
                (if data input_ids ! (b * S + s) = image_token_index
                 then map (\<lambda>v. v / sqrt (real hidden))
                        (vec image_features (image_rank image_token_index input_ids (b * S + s)))
                 else if data input_ids ! (b * S + s)
                         = (case pad_token_id of None \<Rightarrow> 0 | Some p \<Rightarrow> p)
                 then replicate E 0
                 else vec inputs_embeds (b * S + s)))"
proof -
  from fusion_vectors [OF assms(1-9) assms(11-14), of hidden pad_token_id]
  obtain emb where
    r: "prepare_inputs_for_multimodal hidden pad_token_id image_token_index image_features
             inputs_embeds input_ids attention_mask = Inr (emb, outer_product_mask am)"
    and sh: "shape emb = [B, S, E]"
    and v: "\<forall>p < B * S.
              vec emb p =
                (if data input_ids ! p = image_token_index
                 then map (\<lambda>v. v / sqrt (real hidden))
                        (vec image_features (image_rank image_token_index input_ids p))
                 else if data input_ids ! p = (case pad_token_id of None \<Rightarrow> 0 | Some p \<Rightarrow> p)
                 then replicate E 0
                 else vec inputs_embeds p)"
    by blast
  from v have "\<forall>b < B. \<forall>s < S.
              vec emb (b * S + s) =
                (if data input_ids ! (b * S + s) = image_token_index
                 then map (\<lambda>v. v / sqrt (real hidden))
                        (vec image_features (image_rank image_token_index input_ids (b * S + s)))
                 else if data input_ids ! (b * S + s)
                         = (case pad_token_id of None \<Rightarrow> 0 | Some p \<Rightarrow> p)
                 then replicate E 0
                 else vec inputs_embeds (b * S + s))"
    using flat_index_bound by blast
  with r sh show ?thesis by blast
qed

lemma ex_wf:
  "wf_tensor ex_features" "shape ex_features = [1, 2, 2]"
  "wf_tensor ex_ids" "shape ex_ids = [1, 4]"
  "wf_tensor ex_embeds" "shape ex_embeds = [1, 4, 2]"
  "shape ex_mask = [1, 4]" "wf_tensor ex_mask"
  by (simp_all add: wf_tensor_def ex_features_def ex_ids_def ex_embeds_def ex_mask_def)

lemma ex_count: "length (filter (\<lambda>i. i = 7) (data ex_ids)) = 1 * 2"
  by (simp add: ex_ids_def)

lemma ex_pos: "0 < (1::nat)" "0 < (4::nat)" "0 < (2::nat)"
  by simp_all

theorem fusion_exact_witness:
  "\<exists>emb m4.
     prepare_inputs_for_multimodal 4 (Some 0) 7 ex_features ex_embeds ex_ids (Some ex_mask)
       = Inr (emb, m4) \<and>
     shape emb = [1, 4, 2] \<and>
     vec emb 0 = [1, 2] \<and> vec emb 1 = [30, 40] \<and> vec emb 2 = [0, 0] \<and> vec emb 3 = [3, 4]"
proof -
  have h: "0 < (4::nat)" by simp
  from fusion_exact [OF ex_wf(1-6) refl ex_wf(7,8) h ex_count ex_pos, of "Some 0"]
  obtain emb m4 where
    r: "prepare_inputs_for_multimodal 4 (Some 0) 7 ex_features ex_embeds ex_ids (Some ex_mask)
          = Inr (emb, m4)"
    and sh: "shape emb = [1, 4, 2]"
    and v: "\<forall>b < 1. \<forall>s < 4.
              vec emb (b * 4 + s) =
                (if data ex_ids ! (b * 4 + s) = 7
                 then map (\<lambda>v. v / sqrt (real 4))
                        (vec ex_features (image_rank 7 ex_ids (b * 4 + s)))
                 else if data ex_ids ! (b * 4 + s) = (case Some 0 of None \<Rightarrow> 0 | Some p \<Rightarrow> p)
                 then replicate 2 0
                 else vec ex_embeds (b * 4 + s))"
    by blast
  have v0: "vec emb 0 = [1, 2]"
    using v [rule_format, of 0 0]
    by (simp add: ex_ids_def ex_features_def vec_def image_rank_def)
  have v1: "vec emb 1 = [30, 40]"
    using v [rule_format, of 0 1]
    by (simp add: ex_ids_def ex_embeds_def vec_def)
  have v2: "vec emb 2 = [0, 0]"
    using v [rule_format, of 0 2]
    by (simp add: ex_ids_def numeral_2_eq_2)
  have v3: "vec emb 3 = [3, 4]"
    using v [rule_format, of 0 3]
    by (simp add: ex_ids_def ex_features_def vec_def image_rank_def)
  from r sh v0 v1 v2 v3 show ?thesis by blast
qed

section \<open>The default pad token\<close>

text \<open>
  C10. When the configured pad-token id is \<open>None\<close>, \<^verbatim>\<open>prepare_inputs_for_multimodal\<close> uses 0
  in its place. On inputs as in C1 (shapes \<open>[B, S]\<close>, \<open>[B, S, E]\<close>, \<open>[N, T, E]\<close> with positive
  \<open>B\<close>, \<open>S\<close>, \<open>E\<close>, matching counts) it returns exactly what it returns for the pad-token
  id 0, and in the fused embedding every position whose token id is not the image-token id
  holds the zero vector if its id is 0 and its text embedding otherwise; a position with the
  image-token id holds its scaled feature vector (also when the image-token id is 0 itself;
  stated for a positive hidden size).
\<close>

theorem pad_token_default_zero:
  assumes "wf_tensor image_features" and "shape image_features = [N, T, E]"
    and "wf_tensor input_ids" and "shape input_ids = [B, S]"
    and "wf_tensor inputs_embeds" and "shape inputs_embeds = [B, S, E]"
    and "attention_mask = Some am" and "shape am = [B, S]" and "wf_tensor am"
    and "length (filter (\<lambda>i. i = image_token_index) (data input_ids)) = N * T"
    and "0 < B" and "0 < S" and "0 < E"
  shows "\<exists>emb m4.
           prepare_inputs_for_multimodal hidden None image_token_index image_features
             inputs_embeds input_ids attention_mask = Inr (emb, m4) \<and>
           prepare_inputs_for_multimodal hidden (Some 0) image_token_index image_features
             inputs_embeds input_ids attention_mask = Inr (emb, m4) \<and>
           shape emb = [B, S, E] \<and>
           (\<forall>b < B. \<forall>s < S.
              (data input_ids ! (b * S + s) \<noteq> image_token_index \<longrightarrow>
                 vec emb (b * S + s) =
                   (if data input_ids ! (b * S + s) = 0 then replicate E 0
                    else vec inputs_embeds (b * S + s))) \<and>
              (data input_ids ! (b * S + s) = image_token_index \<longrightarrow> 0 < hidden \<longrightarrow>
                 vec emb (b * S + s) =
                   map (\<lambda>v. v / sqrt (real hidden))
                     (vec image_features
                        (image_rank image_token_index input_ids (b * S + s)))))"
proof -
  from fusion_vectors [OF assms(1-13), of hidden None]
  obtain emb where
    r: "prepare_inputs_for_multimodal hidden None image_token_index image_features
             inputs_embeds input_ids attention_mask = Inr (emb, outer_product_mask am)"
    and sh: "shape emb = [B, S, E]"
    and v: "\<forall>p < B * S.
              vec emb p =
                (if data input_ids ! p = image_token_index
                 then map (\<lambda>v. v / sqrt (real hidden))
                        (vec image_features (image_rank image_token_index input_ids p))
                 else if data input_ids ! p = (case None of None \<Rightarrow> 0 | Some p \<Rightarrow> p)
                 then replicate E 0
                 else vec inputs_embeds p)"
    by blast
  have same: "prepare_inputs_for_multimodal hidden (Some 0) image_token_index image_features
                inputs_embeds input_ids attention_mask =
              prepare_inputs_for_multimodal hidden None image_token_index image_features
                inputs_embeds input_ids attention_mask"
    by (simp only: prepare_unfold [OF assms(2,4)] option.case)
  have "(data input_ids ! (b * S + s) \<noteq> image_token_index \<longrightarrow>
           vec emb (b * S + s) =
             (if data input_ids ! (b * S + s) = 0 then replicate E 0
              else vec inputs_embeds (b * S + s))) \<and>
        (data input_ids ! (b * S + s) = image_token_index \<longrightarrow> 0 < hidden \<longrightarrow>
           vec emb (b * S + s) =
             map (\<lambda>v. v / sqrt (real hidden))
               (vec image_features (image_rank image_token_index input_ids (b * S + s))))"
    if "b < B" "s < S" for b s
    using v [rule_format, OF flat_index_bound [OF that]] by simp
  with r same sh show ?thesis by (simp only: same) blast
qed

theorem pad_token_default_zero_witness:
  "\<exists>emb m4.
     prepare_inputs_for_multimodal 4 None 7 ex_features ex_embeds ex_ids (Some ex_mask)
       = Inr (emb, m4) \<and>
     prepare_inputs_for_multimodal 4 (Some 0) 7 ex_features ex_embeds ex_ids (Some ex_mask)
       = Inr (emb, m4) \<and>
     shape emb = [1, 4, 2] \<and> data ex_ids = [7, 5, 0, 7] \<and>
     vec ex_embeds 1 = [30, 40] \<and> vec ex_embeds 2 = [50, 60] \<and>
     vec emb 0 = [1, 2] \<and> vec emb 1 = [30, 40] \<and> vec emb 2 = [0, 0] \<and> vec emb 3 = [3, 4]"
proof -
  from pad_token_default_zero [OF ex_wf(1-6) refl ex_wf(7,8) ex_count ex_pos, of 4]
  obtain emb m4 where
    r: "prepare_inputs_for_multimodal 4 None 7 ex_features ex_embeds ex_ids (Some ex_mask)
          = Inr (emb, m4)"
    and r0: "prepare_inputs_for_multimodal 4 (Some 0) 7 ex_features ex_embeds ex_ids
               (Some ex_mask) = Inr (emb, m4)"
    and sh: "shape emb = [1, 4, 2]"
    and v: "\<forall>b < 1. \<forall>s < 4.
              (data ex_ids ! (b * 4 + s) \<noteq> 7 \<longrightarrow>
                 vec emb (b * 4 + s) =
                   (if data ex_ids ! (b * 4 + s) = 0 then replicate 2 0
                    else vec ex_embeds (b * 4 + s))) \<and>
              (data ex_ids ! (b * 4 + s) = 7 \<longrightarrow> 0 < (4::nat) \<longrightarrow>
                 vec emb (b * 4 + s) =
                   map (\<lambda>v. v / sqrt (real 4))
                     (vec ex_features (image_rank 7 ex_ids (b * 4 + s))))"
    by blast
  have ids: "data ex_ids = [7, 5, 0, 7]" by (simp add: ex_ids_def)
  have e1: "vec ex_embeds 1 = [30, 40]" by (simp add: vec_def ex_embeds_def)
  have e2: "vec ex_embeds 2 = [50, 60]" by (simp add: vec_def ex_embeds_def)
  have v0: "vec emb 0 = [1, 2]"
    using v [rule_format, of 0 0]
    by (simp add: ex_ids_def ex_features_def vec_def image_rank_def)
  have v1: "vec emb 1 = [30, 40]"
    using v [rule_format, of 0 1]
    by (simp add: ex_ids_def ex_embeds_def vec_def)
  have v2: "vec emb 2 = [0, 0]"
    using v [rule_format, of 0 2]
    by (simp add: ex_ids_def numeral_2_eq_2)
  have v3: "vec emb 3 = [3, 4]"
    using v [rule_format, of 0 3]
    by (simp add: ex_ids_def ex_features_def vec_def image_rank_def)
  from r r0 sh ids e1 e2 v0 v1 v2 v3 show ?thesis by blast
qed

section \<open>Mismatched numbers of image tokens and feature vectors\<close>

lemma masked_scatter_mismatch:
  assumes "length (data feats) \<noteq> length (filter id (data m))"
    and "length (data feats) \<noteq> 1"
  shows "masked_scatter fe m feats = Inl ValueError"
  using assms by (simp add: masked_scatter_def Let_def setitem_def length_np_where bind_Inl)

lemma masked_scatter_empty:
  "data fe = [] \<Longrightarrow> masked_scatter fe m feats = Inl ValueError"
  by (simp add: masked_scatter_def Let_def setitem_def bind_Inl)

lemma bcast_Nil: "bcast s t [] = []"
  by (induction s t "[] :: 'a list" rule: bcast.induct) simp_all

lemma mx_where_empty:
  assumes "data c = []" and "mx_where c x y = Inr r"
  shows "data r = []"
  using assms
  by (auto simp: mx_where_def broadcast_to_def bcast_Nil bind_def split: sum.splits)

lemma fusion_empty_raises:
  assumes sh_f: "shape image_features = [N, T, E]" and sh_i: "shape input_ids = [B, S]"
    and empty: "E = 0 \<or> data input_ids = []"
  shows "prepare_inputs_for_multimodal hidden pad_token_id image_token_index image_features
           inputs_embeds input_ids attention_mask = Inl ValueError"
proof -
  define pad' where "pad' = (case pad_token_id of None \<Rightarrow> (0::int) | Some p \<Rightarrow> p)"
  define TM where
    "TM = Tensor [B, S, E]
            (concat (map (replicate E)
               (map (\<lambda>i. i \<noteq> image_token_index \<and> i \<noteq> pad') (data input_ids))))"
  define PM where
    "PM = Tensor [B, S, E] (concat (map (replicate E) (map (\<lambda>i. i = pad') (data input_ids))))"
  have pm: "data PM = []" using empty by (auto simp: PM_def)
  show ?thesis
  proof (cases "mx_where TM inputs_embeds (mx_zeros [B, S, E])")
    case (Inl e)
    then have "e = ValueError" by (rule mx_where_error)
    with Inl show ?thesis
      unfolding prepare_unfold [OF sh_f sh_i] pad'_def [symmetric] TM_def [symmetric]
      by (simp only: bind_Inl)
  next
    case w1: (Inr fe1)
    show ?thesis
    proof (cases "mx_where PM (mx_zeros_like fe1) fe1")
      case (Inl e)
      then have "e = ValueError" by (rule mx_where_error)
      with Inl show ?thesis
        unfolding prepare_unfold [OF sh_f sh_i] pad'_def [symmetric] TM_def [symmetric]
          PM_def [symmetric] w1 bind_Inr
        by (simp only: bind_Inl)
    next
      case w2: (Inr fe2)
      have "data fe2 = []" using pm w2 by (rule mx_where_empty)
      then have sc: "masked_scatter fe2 m feats = Inl ValueError" for m feats
        by (rule masked_scatter_empty)
      show ?thesis
        unfolding prepare_unfold [OF sh_f sh_i] pad'_def [symmetric] TM_def [symmetric]
          PM_def [symmetric] w1 bind_Inr w2 sc bind_Inl ..
    qed
  qed
qed

lemma fusion_empty_embedding_raises:
  assumes "shape image_features = [N, T, E]" and "shape input_ids = [B, S]"
    and "wf_tensor input_ids" and "B * S * E = 0"
  shows "prepare_inputs_for_multimodal hidden pad_token_id image_token_index image_features
           inputs_embeds input_ids attention_mask = Inl ValueError"
proof -
  have "E = 0 \<or> data input_ids = []"
    using assms(2,3,4) by (auto simp: wf_tensor_def)
  with assms(1,2) show ?thesis by (rule fusion_empty_raises)
qed

text \<open>
  C3 (amended). For token ids of shape \<open>[B, S]\<close> and features of shape \<open>[N, T, E]\<close>: when
  the number of image-token positions differs from the number \<open>N \<sqdot> T\<close> of feature vectors
  and the features are not one single scalar (\<open>N \<sqdot> T \<sqdot> E \<noteq> 1\<close>), the fusion raises
  ValueError and returns nothing, whatever the embeddings, the mask and the pad id are.
\<close>

theorem fusion_mismatch_raises:
  assumes "wf_tensor image_features" and "shape image_features = [N, T, E]"
    and "shape input_ids = [B, S]"
    and "length (filter (\<lambda>i. i = image_token_index) (data input_ids)) \<noteq> N * T"
    and "N * T * E \<noteq> 1"
  shows "prepare_inputs_for_multimodal hidden pad_token_id image_token_index image_features
           inputs_embeds input_ids attention_mask = Inl ValueError"
proof (cases "E = 0")
  case True
  then have "E = 0 \<or> data input_ids = []" ..
  with assms(2,3) show ?thesis by (rule fusion_empty_raises)
next
  case False
  define IM where
    "IM = Tensor [B, S, E]
            (concat (map (replicate E) (map (\<lambda>i. i = image_token_index) (data input_ids))))"
  define feats where "feats = tmap (\<lambda>v. v / sqrt (real hidden)) image_features"
  have lf: "length (data feats) = N * T * E"
    using assms(1,2) by (simp add: feats_def tmap_def wf_tensor_def)
  have lm: "length (filter id (data IM))
              = length (filter (\<lambda>i. i = image_token_index) (data input_ids)) * E"
    unfolding IM_def tensor.sel count_concat_replicate by (simp add: filter_map comp_def)
  have ne: "length (data feats) \<noteq> length (filter id (data IM))"
    unfolding lf lm using assms(4) False by simp
  have one: "length (data feats) \<noteq> 1" unfolding lf using assms(5) .
  have sc: "masked_scatter fe IM feats = Inl ValueError" for fe
    using ne one by (rule masked_scatter_mismatch)
  show ?thesis
    unfolding prepare_unfold [OF assms(2,3)] IM_def [symmetric] feats_def [symmetric] sc bind_Inl
    by (auto simp: bind_def split: sum.splits dest: mx_where_error)
qed

theorem fusion_mismatch_raises_witness:
  "length (filter (\<lambda>i. i = 7) (data ex_ids_one)) = 1 \<and>
   shape ex_features = [1, 2, 2] \<and>
   prepare_inputs_for_multimodal 4 (Some 0) 7 ex_features ex_embeds ex_ids_one (Some ex_mask)
     = Inl ValueError"
proof -
  have c: "length (filter (\<lambda>i. i = 7) (data ex_ids_one)) = 1" by (simp add: ex_ids_one_def)
  have sh: "shape ex_ids_one = [1, 4]" by (simp add: ex_ids_one_def)
  have ne: "length (filter (\<lambda>i. i = 7) (data ex_ids_one)) \<noteq> 1 * 2" using c by simp
  have o: "(1::nat) * 2 * 2 \<noteq> 1" by simp
  from fusion_mismatch_raises [OF ex_wf(1,2) sh ne o, of 4 "Some 0" ex_embeds "Some ex_mask"]
    c ex_wf(2)
  show ?thesis by blast
qed

lemma upt_0_3: "[0..<3] = [0, 1, 2]"
  by code_simp

lemma upt_0_1: "[0..<1] = [0]"
  by simp

text \<open>
  The claim of C3 as stated fails when the features are a single scalar: with embedding
  width 1, two image-token positions and one feature vector \<open>[4]\<close> (hidden size 4), the
  index assignment broadcasts the one scaled value 2 to both positions and the fusion
  returns \<open>[2, 20, 2]\<close>.
\<close>

theorem fusion_mismatch_broadcast_counterexample:
  "length (filter (\<lambda>i. i = 7) (data ex1_ids)) = 2 \<and>
   shape ex1_features = [1, 1, 1] \<and>
   prepare_inputs_for_multimodal 4 (Some 0) 7 ex1_features ex1_embeds ex1_ids (Some ex1_mask)
     = Inr (Tensor [1, 3, 1] [2, 20, 2], outer_product_mask ex1_mask)"
proof -
  have c: "length (filter (\<lambda>i. i = 7) (data ex1_ids)) = 2" by (simp add: ex1_ids_def)
  have shf: "shape ex1_features = [1, 1, 1]" by (simp add: ex1_features_def)
  have shi: "shape ex1_ids = [1, 3]" by (simp add: ex1_ids_def)
  have sha: "shape ex1_mask = [1, 3]" and wfa: "wf_tensor ex1_mask"
    by (simp_all add: ex1_mask_def wf_tensor_def)
  have tm: "concat (map (replicate 1)
              (map (\<lambda>i. i \<noteq> 7 \<and> i \<noteq> 0) (data ex1_ids)))
            = [False, True, False]"
    by (simp add: ex1_ids_def)
  have pm: "concat (map (replicate 1)
              (map (\<lambda>i. i = 0) (data ex1_ids)))
            = [False, False, False]"
    by (simp add: ex1_ids_def)
  have im: "concat (map (replicate 1) (map (\<lambda>i. i = 7) (data ex1_ids))) = [True, False, True]"
    by (simp add: ex1_ids_def)
  have w1: "mx_where (Tensor [1, 3, 1] [False, True, False]) ex1_embeds (mx_zeros [1, 3, 1])
              = Inr (Tensor [1, 3, 1] [0, 20, 0])"
    using mx_where_same_shape [of "Tensor [1, 3, 1] [False, True, False]" ex1_embeds
        "mx_zeros [1, 3, 1]"]
    by (simp add: wf_tensor_def ex1_embeds_def mx_zeros_def numeral_3_eq_3)
  have w2: "mx_where (Tensor [1, 3, 1] [False, False, False])
              (mx_zeros_like (Tensor [1, 3, 1] [0, 20, 0])) (Tensor [1, 3, 1] [0, 20, 0])
              = Inr (Tensor [1, 3, 1] [0, 20, 0])"
    using mx_where_same_shape [of "Tensor [1, 3, 1] [False, False, False]"
        "mx_zeros_like (Tensor [1, 3, 1] [0, 20, 0])" "Tensor [1, 3, 1] [0, 20, 0]"]
    by (simp add: wf_tensor_def mx_zeros_like_def mx_zeros_def numeral_3_eq_3)
  have sc: "masked_scatter (Tensor [1, 3, 1] [0, 20, 0]) (Tensor [1, 3, 1] [True, False, True])
              (tmap (\<lambda>v. v / sqrt (real 4)) ex1_features) = Inr (Tensor [1, 3, 1] [2, 20, 2])"
    by (simp add: masked_scatter_def Let_def np_where_def upt_0_3 tmap_def ex1_features_def
        setitem_def bind_Inr)
  have "prepare_inputs_for_multimodal 4 (Some 0) 7 ex1_features ex1_embeds ex1_ids (Some ex1_mask)
     = Inr (Tensor [1, 3, 1] [2, 20, 2], outer_product_mask ex1_mask)"
    unfolding prepare_unfold [OF shf shi] tm pm im w1 bind_Inr w2 sc option.case
      mask_4d [OF sha wfa] ..
  with c shf show ?thesis by blast
qed

section \<open>The attention mask in the forward call\<close>

lemma data_as_vecs:
  assumes "wf_tensor t" "shape t = [B, S, E]"
  shows "data t = concat (map (vec t) [0..<B * S])"
proof -
  have "concat (map (\<lambda>i. take E (drop (i * E) (data t))) [0..<B * S]) = take (B * S * E) (data t)"
    by (rule concat_blocks)
  moreover have "length (data t) = B * S * E" using assms by (simp add: wf_tensor_def)
  moreover have "vec t = (\<lambda>i. take E (drop (i * E) (data t)))"
    by (rule ext) (simp add: vec_def assms(2))
  ultimately show ?thesis by simp
qed

lemma ex_outer_product_mask:
  "outer_product_mask ex_mask = Tensor [1, 1, 4, 4] [1, 1, 0, 1, 1, 1, 0, 1, 0, 0, 0, 0, 1, 1, 0, 1]"
  by (simp add: outer_product_mask_def ex_mask_def upt_0_4)

lemma ex_prepare:
  "prepare_inputs_for_multimodal 4 (Some 0) 7 ex_features ex_embeds ex_ids (Some ex_mask)
     = Inr (Tensor [1, 4, 2] [1, 2, 30, 40, 0, 0, 3, 4],
            Tensor [1, 1, 4, 4] [1, 1, 0, 1, 1, 1, 0, 1, 0, 0, 0, 0, 1, 1, 0, 1])"
proof -
  from fusion_vectors [OF ex_wf(1-6) refl ex_wf(7,8) ex_count ex_pos, of 4 "Some 0"]
  obtain emb where
    r: "prepare_inputs_for_multimodal 4 (Some 0) 7 ex_features ex_embeds ex_ids (Some ex_mask)
          = Inr (emb, outer_product_mask ex_mask)"
    and sh: "shape emb = [1, 4, 2]" and wf: "wf_tensor emb"
    and v: "\<forall>p < 1 * 4.
              vec emb p =
                (if data ex_ids ! p = 7
                 then map (\<lambda>v. v / sqrt (real 4)) (vec ex_features (image_rank 7 ex_ids p))
                 else if data ex_ids ! p = (case Some 0 of None \<Rightarrow> 0 | Some p \<Rightarrow> p)
                 then replicate 2 0
                 else vec ex_embeds p)"
    by blast
  have v0: "vec emb 0 = [1, 2]"
    using v [rule_format, of 0]
    by (simp add: ex_ids_def ex_features_def vec_def image_rank_def)
  have v1: "vec emb (Suc 0) = [30, 40]"
    using v [rule_format, of "Suc 0"]
    by (simp add: ex_ids_def ex_embeds_def vec_def)
  have v2: "vec emb 2 = [0, 0]"
    using v [rule_format, of 2]
    by (simp add: ex_ids_def numeral_2_eq_2)
  have v3: "vec emb 3 = [3, 4]"
    using v [rule_format, of 3]
    by (simp add: ex_ids_def ex_features_def vec_def image_rank_def)
  have "data emb = concat (map (vec emb) [0..<1 * 4])" using wf sh by (rule data_as_vecs)
  then have "data emb = [1, 2, 30, 40, 0, 0, 3, 4]"
    by (simp add: upt_0_4 v0 v1 v2 v3)
  then have "emb = Tensor [1, 4, 2] [1, 2, 30, 40, 0, 0, 3, 4]"
    using sh by (cases emb) simp
  with r show ?thesis by (simp only: ex_outer_product_mask)
qed

lemma Model_call_lm_args_mask:
  "Model_call_lm_args self input_ids pixel_values mask' cache = Inr args \<Longrightarrow> lm_mask args = None"
  by (auto simp: Model_call_lm_args_def bind_def split: sum.splits prod.splits)

text \<open>
  C2. \<^verbatim>\<open>prepare_inputs_for_multimodal\<close> does build the four-dimensional mask as the outer
  product of the validity mask with itself (\<open>fusion_vectors\<close>), and
  \<^verbatim>\<open>get_input_embeddings\<close> returns it; but \<^verbatim>\<open>Model.__call__\<close> binds it to a name and then
  calls the language model without a \<^verbatim>\<open>mask\<close> argument (\<open>Model_call_lm_args_mask\<close>, for every
  input). On the small input with validity mask \<open>[1, 1, 0, 1]\<close> the mask that was built has
  zero rows and columns for the padded token, and the language model receives no mask.
\<close>

theorem Model_call_drops_attention_mask:
  "get_input_embeddings ex_model ex_ids (Some ()) (Some ex_mask)
     = Inr (Tensor [1, 4, 2] [1, 2, 30, 40, 0, 0, 3, 4],
            Some (Tensor [1, 1, 4, 4] [1, 1, 0, 1, 1, 1, 0, 1, 0, 0, 0, 0, 1, 1, 0, 1])) \<and>
   Model_call ex_model ex_ids (Some ()) (Some ex_mask) ()
     = Inr \<lparr>lm_inputs = ex_ids, lm_cache = (),
            lm_inputs_embeds = Some (Tensor [1, 4, 2] [1, 2, 30, 40, 0, 0, 3, 4]),
            lm_mask = None\<rparr>"
proof -
  have g: "get_input_embeddings ex_model ex_ids (Some ()) (Some ex_mask)
     = Inr (Tensor [1, 4, 2] [1, 2, 30, 40, 0, 0, 3, 4],
            Some (Tensor [1, 1, 4, 4] [1, 1, 0, 1, 1, 1, 0, 1, 0, 0, 0, 0, 1, 1, 0, 1]))"
    by (simp add: get_input_embeddings_def ex_model_def ex_prepare bind_Inr)
  then have "Model_call ex_model ex_ids (Some ()) (Some ex_mask) ()
     = Inr \<lparr>lm_inputs = ex_ids, lm_cache = (),
            lm_inputs_embeds = Some (Tensor [1, 4, 2] [1, 2, 30, 40, 0, 0, 3, 4]),
            lm_mask = None\<rparr>"
    by (simp add: Model_call_def Model_call_lm_args_def bind_Inr ex_model_def)
  with g show ?thesis by blast
qed

section \<open>The expert gate\<close>

lemma reshape_infer_error: "reshape_infer a b = Inl e \<Longrightarrow> e = ValueError"
  by (simp add: reshape_infer_def split: if_splits)

lemma argpartition_error: "argpartition ap xs k = Inl e \<Longrightarrow> e = ValueError"
  by (simp add: argpartition_def Let_def split: if_splits)

lemma map_result_error:
  "(\<And>x e. f x = Inl e \<Longrightarrow> e = ValueError) \<Longrightarrow> map_result f xs = Inl e \<Longrightarrow> e = ValueError"
  by (induction xs arbitrary: e) (auto simp: bind_def split: sum.splits)

lemma noaux_scores_for_choice_error:
  "noaux_scores_for_choice self s = Inl e \<Longrightarrow> e = ValueError"
  by (auto simp: noaux_scores_for_choice_def broadcast2_def bind_def split: if_splits)

lemma noaux_group_idx_error: "noaux_group_idx ap self g s = Inl e \<Longrightarrow> e = ValueError"
  by (auto simp: noaux_group_idx_def Let_def bind_def split: sum.splits
      dest: argpartition_error)

lemma gate_scores_error: "gate_scores self n h ex hw x = Inl e \<Longrightarrow> e = ValueError"
  by (simp add: gate_scores_def Let_def split: if_splits)

lemma noaux_scores_for_choice_all_error:
  "map_result (noaux_scores_for_choice self) xs = Inl e \<Longrightarrow> e = ValueError"
  by (erule map_result_error [rotated]) (rule noaux_scores_for_choice_error)

lemma noaux_group_idx_all_error:
  "map_result (noaux_group_idx ap self g) xs = Inl e \<Longrightarrow> e = ValueError"
  by (erule map_result_error [rotated]) (rule noaux_group_idx_error)

lemma noaux_select_batch:
  assumes "bsz \<noteq> 1" "seq_len \<noteq> 1"
  shows "noaux_select ap self bsz seq_len experts scores = Inl ValueError"
proof -
  have "noaux_select ap self bsz seq_len experts scores = Inl e \<Longrightarrow> e = ValueError" for e
    using assms
    by (auto simp: noaux_select_def bind_def split: sum.splits if_splits
        dest: reshape_infer_error noaux_scores_for_choice_all_error
          noaux_group_idx_all_error)
  moreover have "\<exists>e. noaux_select ap self bsz seq_len experts scores = Inl e"
    using assms
    by (auto simp: noaux_select_def bind_def split: sum.splits if_splits)
  ultimately show ?thesis by blast
qed

text \<open>
  C4. Under the greedy policy the gate works token by token, but under noaux\_tc it does not
  return for a batch: whenever both the batch size and the sequence length differ from 1,
  the three index arrays of the masking step do not broadcast and the call raises
  ValueError, whatever the weights, the scores and the selection algorithm are. The claim
  asks for \<open>top_k\<close> indices and weights per token for every input and both policies.
\<close>

theorem noaux_tc_batch_raises:
  assumes "topk_method self = ''noaux_tc''" and "shape x = [bsz, seq_len, hidden]"
    and "shape (weight self) = [experts, hidden]"
    and "bsz \<noteq> 1" and "seq_len \<noteq> 1"
  shows "MoEGate_call ap self x = Inl ValueError"
proof (cases "gate_scores self (bsz * seq_len) hidden experts hidden x")
  case (Inl e)
  then have "e = ValueError" by (rule gate_scores_error)
  with Inl assms(2,3) show ?thesis by (simp add: MoEGate_call_def bind_def)
next
  case (Inr scores)
  with assms(1-3) noaux_select_batch [OF assms(4,5)] show ?thesis
    by (simp add: MoEGate_call_def bind_def)
qed

theorem noaux_tc_batch_raises_witness:
  "shape gate_x22 = [2, 2, 1] \<and> MoEGate_call argsort gate_noaux gate_x22 = Inl ValueError"
proof -
  have "MoEGate_call argsort gate_noaux gate_x22 = Inl ValueError"
    by (rule noaux_tc_batch_raises [of _ _ 2 2 1 4])
       (simp_all add: gate_noaux_def gate_x22_def)
  then show ?thesis by (simp add: gate_x22_def)
qed

lemma is_argpartition_argsort: "is_argpartition argsort"
  unfolding is_argpartition_def
proof (intro allI impI)
  fix xs :: "real list" and kth :: nat
  assume kth: "kth < length xs"
  let ?p = "argsort xs kth"
  have d: "distinct ?p" by (simp add: argsort_def)
  have s: "set ?p = {..<length xs}" by (auto simp: argsort_def)
  have l: "length ?p = length xs" by (simp add: argsort_def)
  have srt: "sorted (map (\<lambda>i. xs ! i) ?p)" by (simp add: argsort_def)
  have mono: "xs ! (?p ! i) \<le> xs ! (?p ! j)" if "i \<le> j" "j < length xs" for i j
    using sorted_nth_mono [OF srt, of i j] that l by simp
  show "distinct ?p \<and> set ?p = {..<length xs} \<and>
        (\<forall>i. i < kth \<longrightarrow> xs ! (?p ! i) \<le> xs ! (?p ! kth)) \<and>
        (\<forall>i. kth < i \<and> i < length xs \<longrightarrow> xs ! (?p ! kth) \<le> xs ! (?p ! i))"
    using d s mono kth by auto
qed

lemma sigmoid_pos: "0 < sigmoid g"
  by (simp add: sigmoid_def add_pos_pos)

lemma sigmoid_less_1: "sigmoid g < 1"
  by (simp add: sigmoid_def add_pos_pos)

lemma sigmoid_mono: "a < b \<Longrightarrow> sigmoid a < sigmoid b"
proof -
  assume "a < b"
  then have "exp (- b) < exp (- a)" by simp
  then have "1 + exp (- b) < 1 + exp (- a)" by simp
  moreover have "0 < 1 + exp (- b)" by (simp add: add_pos_pos)
  ultimately show ?thesis unfolding sigmoid_def by (simp add: frac_less2)
qed

lemma top2_sum_pair: "top2_sum [a, b] = a + b"
  by (simp add: top2_sum_def)

lemma argpartition_length:
  assumes "is_argpartition ap" "kth < length xs"
  shows "length (ap xs kth) = length xs"
proof -
  from assms have d: "distinct (ap xs kth)" and s: "set (ap xs kth) = {..<length xs}"
    by (simp_all add: is_argpartition_def)
  from d have "length (ap xs kth) = card (set (ap xs kth))" by (simp add: distinct_card)
  with s show ?thesis by simp
qed

lemma argpartition_first_is_min:
  assumes ap: "is_argpartition ap" and m: "m < length xs"
    and least: "\<And>j. j < length xs \<Longrightarrow> j \<noteq> m \<Longrightarrow> xs ! m < xs ! j"
  shows "ap xs 0 ! 0 = m"
proof (rule ccontr)
  assume ne: "ap xs 0 ! 0 \<noteq> m"
  have pos: "0 < length xs" using m by (cases xs) simp_all
  let ?p = "ap xs 0"
  have s: "set ?p = {..<length xs}"
    and le: "\<And>i. 0 < i \<Longrightarrow> i < length xs \<Longrightarrow> xs ! (?p ! 0) \<le> xs ! (?p ! i)"
    using ap pos by (simp_all add: is_argpartition_def)
  have len: "length ?p = length xs" using ap pos by (rule argpartition_length)
  have "m \<in> set ?p" using s m by simp
  then obtain i where i: "i < length ?p" "?p ! i = m" by (auto simp: in_set_conv_nth)
  have "i \<noteq> 0"
  proof
    assume "i = 0"
    with i(2) ne show False by simp
  qed
  then have "0 < i" by simp
  then have "xs ! (?p ! 0) \<le> xs ! (?p ! i)" using le [of i] i(1) len by simp
  then have "xs ! (?p ! 0) \<le> xs ! m" by (simp only: i(2))
  moreover have "?p ! 0 < length xs" using s len pos nth_mem [of 0 ?p] by auto
  ultimately show False using least [of "?p ! 0"] ne by auto
qed


lemma chunks_numeral:
  "chunks n (numeral k) xs = take n xs # chunks n (pred_numeral k) (drop n xs)"
  by (simp add: numeral_eq_Suc)

lemma gate_x1_scores:
  "gate_scores gate_noaux (1 * 1) 1 4 1 gate_x1 = Inr [[sigmoid 3, sigmoid 0, sigmoid 2, sigmoid 1]]"
  by (simp add: gate_scores_def gate_noaux_def gate_x1_def chunks_numeral Let_def)

lemma gate_x1_scores_for_choice:
  "map_result (noaux_scores_for_choice gate_noaux)
     [[sigmoid 3, sigmoid 0, sigmoid 2, sigmoid 1]]
   = Inr [[sigmoid 3 + 10, sigmoid 0 + 10, sigmoid 2, sigmoid 1]]"
  by (simp add: noaux_scores_for_choice_def gate_noaux_def broadcast2_def bind_def)

lemma gate_x1_group_idx:
  assumes "is_argpartition ap"
  shows "noaux_group_idx ap gate_noaux 2 [sigmoid 3 + 10, sigmoid 0 + 10, sigmoid 2, sigmoid 1]
         = Inr [1]"
proof -
  let ?gs = "[sigmoid 3 + 10 + (sigmoid 0 + 10), sigmoid 2 + sigmoid 1]"
  have gs: "map top2_sum (chunks 2 (n_group gate_noaux)
              [sigmoid 3 + 10, sigmoid 0 + 10, sigmoid 2, sigmoid 1]) = ?gs"
    by (simp add: gate_noaux_def chunks_numeral top2_sum_pair)
  have lt: "?gs ! 1 < ?gs ! j" if "j < length ?gs" "j \<noteq> 1" for j
  proof -
    have "j = 0" using that by simp
    moreover have "sigmoid 2 + sigmoid 1 < sigmoid 3 + 10 + (sigmoid 0 + 10)"
      using sigmoid_less_1 [of 2] sigmoid_less_1 [of 1] sigmoid_pos [of 3] sigmoid_pos [of 0]
      by linarith
    ultimately show ?thesis by simp
  qed
  have first: "ap ?gs 0 ! 0 = 1"
    by (rule argpartition_first_is_min [OF assms]) (use lt in simp_all)
  have "length (ap ?gs 0) = length ?gs" by (rule argpartition_length [OF assms]) simp
  then have "take 1 (ap ?gs 0) = [ap ?gs 0 ! 0]"
    by (cases "ap ?gs 0") simp_all
  with first have tk: "take 1 (ap ?gs 0) = [1]" by simp
  show ?thesis
    unfolding noaux_group_idx_def Let_def gs
    using tk by (simp add: gate_noaux_def argpartition_def py_slice_to_def bind_def)
qed

lemma less_4_cases: "n < 4 \<Longrightarrow> n = 0 \<or> n = 1 \<or> n = 2 \<or> n = (3::nat)"
  by arith

lemma length_4_conv:
  "length q = 4 \<Longrightarrow> q = [q ! 0, q ! 1, q ! 2, q ! 3]"
  by (rule nth_equalityI) (auto simp: nth_Cons' dest: less_4_cases)

lemma top2_of_four:
  assumes ap: "is_argpartition ap"
    and ord: "b < d" "d < c" "c < a"
  shows "drop 2 (ap [a, b, c, d] 2) = [2, 0]"
proof -
  let ?xs = "[a, b, c, d]"
  let ?q = "ap ?xs 2"
  have k: "2 < length ?xs" by simp
  have len: "length ?q = 4" using argpartition_length [OF ap k] by simp
  from ap k have d: "distinct ?q" and s: "set ?q = {..<length ?xs}"
    and lo: "\<And>i. i < 2 \<Longrightarrow> ?xs ! (?q ! i) \<le> ?xs ! (?q ! 2)"
    and hi: "\<And>i. 2 < i \<Longrightarrow> i < length ?xs \<Longrightarrow> ?xs ! (?q ! 2) \<le> ?xs ! (?q ! i)"
    unfolding is_argpartition_def by blast+
  have rng: "?q ! i < 4" if "i < 4" for i
    using nth_mem [of i ?q] s len that by simp
  have ne: "?q ! i \<noteq> ?q ! j" if "i < 4" "j < 4" "i \<noteq> j" for i j
    using d len that by (simp add: nth_eq_iff_index_eq)
  have v: "?xs ! 0 = a" "?xs ! 1 = b" "?xs ! 2 = c" "?xs ! 3 = d" by simp_all
  have le0: "?xs ! (?q ! 0) \<le> ?xs ! (?q ! 2)" by (rule lo) simp
  have le1: "?xs ! (?q ! 1) \<le> ?xs ! (?q ! 2)" by (rule lo) simp
  have le3: "?xs ! (?q ! 2) \<le> ?xs ! (?q ! 3)" by (rule hi) simp_all
  have c0: "?q ! 0 = 0 \<or> ?q ! 0 = 1 \<or> ?q ! 0 = 2 \<or> ?q ! 0 = 3"
    by (rule less_4_cases) (rule rng, simp)
  have c1: "?q ! 1 = 0 \<or> ?q ! 1 = 1 \<or> ?q ! 1 = 2 \<or> ?q ! 1 = 3"
    by (rule less_4_cases) (rule rng, simp)
  have c2: "?q ! 2 = 0 \<or> ?q ! 2 = 1 \<or> ?q ! 2 = 2 \<or> ?q ! 2 = 3"
    by (rule less_4_cases) (rule rng, simp)
  have c3: "?q ! 3 = 0 \<or> ?q ! 3 = 1 \<or> ?q ! 3 = 2 \<or> ?q ! 3 = 3"
    by (rule less_4_cases) (rule rng, simp)
  have n01: "?q ! 0 \<noteq> ?q ! 1" by (rule ne) simp_all
  have n02: "?q ! 0 \<noteq> ?q ! 2" by (rule ne) simp_all
  have n12: "?q ! 1 \<noteq> ?q ! 2" by (rule ne) simp_all
  have n23: "?q ! 2 \<noteq> ?q ! 3" by (rule ne) simp_all
  have q2: "?q ! 2 = 2"
  proof -
    have "?q ! 2 \<noteq> 0"
    proof
      assume e: "?q ! 2 = 0"
      with le3 have "a \<le> ?xs ! (?q ! 3)" by (simp only: v)
      with c3 n23 e ord show False by (auto simp only: v)
    qed
    moreover have "?q ! 2 \<noteq> 1"
    proof
      assume e: "?q ! 2 = 1"
      with le0 have "?xs ! (?q ! 0) \<le> b" by (simp only: v)
      with c0 n02 e ord show False by (auto simp only: v)
    qed
    moreover have "?q ! 2 \<noteq> 3"
    proof
      assume e: "?q ! 2 = 3"
      with le0 le1 have "?xs ! (?q ! 0) \<le> d" "?xs ! (?q ! 1) \<le> d" by (simp_all only: v)
      with c0 c1 n02 n12 e ord have "?q ! 0 = 1" "?q ! 1 = 1" by (auto simp only: v)
      with n01 show False by simp
    qed
    ultimately show ?thesis using c2 by auto
  qed
  have q3: "?q ! 3 = 0"
  proof -
    from le3 q2 have "c \<le> ?xs ! (?q ! 3)" by (simp only: v)
    with c3 n23 q2 ord show ?thesis by (auto simp only: v)
  qed
  have "?q = [?q ! 0, ?q ! 1, ?q ! 2, ?q ! 3]" using len by (rule length_4_conv)
  then have "drop 2 ?q = [?q ! 2, ?q ! 3]"
    by (metis drop0 drop_Suc_Cons numeral_2_eq_2)
  with q2 q3 show ?thesis by simp
qed

lemma gate_x1_zeroed:
  "noaux_zeroed 1 1 [[1]] [[sigmoid 3, sigmoid 0, sigmoid 2, sigmoid 1]]
     = [[sigmoid 3, 0, sigmoid 2, sigmoid 1]]"
  by (simp add: noaux_zeroed_def)

lemma gate_x1_inds:
  assumes "is_argpartition ap"
  shows "map_result (\<lambda>s. bind (argpartition ap s (- 2)) (\<lambda>part. Inr (py_slice_from (- 2) part)))
           [[sigmoid 3, 0, sigmoid 2, sigmoid 1]] = Inr [[2, 0]]"
proof -
  let ?s = "[sigmoid 3, 0, sigmoid 2, sigmoid 1]"
  have d: "drop 2 (ap ?s 2) = [2, 0]"
    by (rule top2_of_four [OF assms]) (simp_all add: sigmoid_pos sigmoid_mono)
  have l: "length (ap ?s 2) = 4" using argpartition_length [OF assms, of 2 ?s] by simp
  have a: "argpartition ap ?s (- 2) = Inr (ap ?s 2)" by (simp add: argpartition_def)
  have "py_slice_from (- 2) (ap ?s 2) = drop 2 (ap ?s 2)" by (simp add: py_slice_from_def l)
  with a d show ?thesis by (simp add: bind_def)
qed

lemma gate_x1_select:
  assumes "is_argpartition ap"
  shows "noaux_select ap gate_noaux 1 1 4 [[sigmoid 3, sigmoid 0, sigmoid 2, sigmoid 1]]
         = Inr (Tensor [1, 1, 2] [2, 0], Tensor [1, 1, 2] [sigmoid 2 * 2, sigmoid 3 * 2])"
proof -
  have r1: "reshape_infer (1 * 1 * 4) (1 * 1) = Inr 4" by (simp add: reshape_infer_def)
  have r2: "reshape_infer
              (1 * 1 * length (hd [[sigmoid 3 + 10, sigmoid 0 + 10, sigmoid 2, sigmoid 1]]))
              (1 * 1 * n_group gate_noaux) = Inr 2"
    by (simp add: reshape_infer_def gate_noaux_def)
  have g: "map_result (noaux_group_idx ap gate_noaux 2)
             [[sigmoid 3 + 10, sigmoid 0 + 10, sigmoid 2, sigmoid 1]] = Inr [[1]]"
    by (simp add: gate_x1_group_idx [OF assms] bind_def)
  have k: "int (top_k gate_noaux) = 2" by (simp add: gate_noaux_def)
  have k': "length (py_slice_from (- 2) [0..<4]) = 2" by (simp add: py_slice_from_def)
  have ga: "noaux_gather 1 1 [[2, 0]] [[sigmoid 3, 0, sigmoid 2, sigmoid 1]]
              = [sigmoid 2, sigmoid 3]"
    by (simp add: noaux_gather_def)
  have f: "routed_scaling_factor gate_noaux = 2" by (simp add: gate_noaux_def)
  show ?thesis
    unfolding noaux_select_def r1 bind_Inr gate_x1_scores_for_choice r2 g gate_x1_zeroed
      Let_def k gate_x1_inds [OF assms] k' ga f
    by simp
qed

lemma gate_x1_call:
  assumes "is_argpartition ap"
  shows "MoEGate_call ap gate_noaux gate_x1
         = Inr (Tensor [1, 1, 2] [2, 0], Tensor [1, 1, 2] [sigmoid 2 * 2, sigmoid 3 * 2])"
proof -
  have sh: "shape gate_x1 = [1, 1, 1]" "shape (weight gate_noaux) = [4, 1]"
    by (simp_all add: gate_x1_def gate_noaux_def)
  have m: "topk_method gate_noaux = ''noaux_tc''" by (simp add: gate_noaux_def)
  show ?thesis
    unfolding MoEGate_call_def sh prod.case list.case gate_x1_scores bind_Inr m
    using gate_x1_select [OF assms] by simp
qed

text \<open>
  C5. Under noaux\_tc the masking step indexes the scores of shape
  \<open>[bsz, seq_len, experts]\<close> with the numbers of the groups to drop, so it zeroes the
  experts whose own number is a dropped group's number, not the experts of the dropped
  groups. In the example gate (two groups of two experts, one group kept) group 1 is
  dropped, expert 1 is zeroed instead of experts 2 and 3, and for every admissible
  selection algorithm the two selected experts are 2 and 0: they span two groups although
  \<open>topk_group\<close> is 1.
\<close>

theorem noaux_tc_two_groups:
  assumes "is_argpartition ap"
  shows "topk_group gate_noaux = 1 \<and>
         (\<exists>inds w. MoEGate_call ap gate_noaux gate_x1 = Inr (inds, w) \<and>
            card ((\<lambda>e. e div 2) ` set (data inds)) = 2)"
proof -
  have "card ((\<lambda>e. e div 2) ` set (data (Tensor [1, 1, 2] [2, 0::nat]))) = 2" by simp
  with gate_x1_call [OF assms] show ?thesis by (simp add: gate_noaux_def)
qed

theorem noaux_tc_two_groups_witness:
  "topk_group gate_noaux = 1 \<and>
   (\<exists>inds w. MoEGate_call argsort gate_noaux gate_x1 = Inr (inds, w) \<and>
      card ((\<lambda>e. e div 2) ` set (data inds)) = 2)"
  using noaux_tc_two_groups [OF is_argpartition_argsort] .

text \<open>
  C6. In the same example the first selected expert is expert 2, which lies in the dropped
  group 1 (\<open>noaux_group_idx\<close> returns \<open>[1]\<close>). With the dropped group zeroed, as the claim
  describes the returned weight, its weight would be 0; the gate returns
  \<open>sigmoid 2 \<sqdot> routed_scaling_factor\<close>, which is not 0.
\<close>

theorem noaux_tc_weight_of_dropped_group:
  assumes "is_argpartition ap"
  shows "noaux_group_idx ap gate_noaux 2 [sigmoid 3 + 10, sigmoid 0 + 10, sigmoid 2, sigmoid 1]
           = Inr [1] \<and>
         (\<exists>inds w. MoEGate_call ap gate_noaux gate_x1 = Inr (inds, w) \<and>
            data inds ! 0 = 2 \<and> data inds ! 0 div 2 = 1 \<and>
            data w ! 0 = sigmoid 2 * routed_scaling_factor gate_noaux \<and> data w ! 0 \<noteq> 0)"
proof -
  have "sigmoid 2 * 2 \<noteq> (0::real)" using sigmoid_pos [of 2] by simp
  with gate_x1_call [OF assms] gate_x1_group_idx [OF assms] show ?thesis
    by (simp add: gate_noaux_def)
qed

theorem noaux_tc_weight_of_dropped_group_witness:
  "noaux_group_idx argsort gate_noaux 2 [sigmoid 3 + 10, sigmoid 0 + 10, sigmoid 2, sigmoid 1]
     = Inr [1] \<and>
   (\<exists>inds w. MoEGate_call argsort gate_noaux gate_x1 = Inr (inds, w) \<and>
      data inds ! 0 = 2 \<and> data inds ! 0 div 2 = 1 \<and>
      data w ! 0 = sigmoid 2 * routed_scaling_factor gate_noaux \<and> data w ! 0 \<noteq> 0)"
  using noaux_tc_weight_of_dropped_group [OF is_argpartition_argsort] .

section \<open>The greedy policy keeps to the selected groups\<close>

lemma argpartition_take:
  assumes ap: "is_argpartition ap" and n: "0 < length xs" and k: "k \<le> length xs"
  shows "\<exists>part. argpartition ap xs (int k - 1) = Inr part \<and>
           distinct part \<and> set part = {..<length xs} \<and> length part = length xs \<and>
           (0 < k \<longrightarrow>
              (\<forall>j < k. xs ! (part ! j) \<le> xs ! (part ! (k - 1))) \<and>
              (\<forall>j. k \<le> j \<and> j < length xs \<longrightarrow> xs ! (part ! (k - 1)) \<le> xs ! (part ! j)))"
proof (cases "k = 0")
  case True
  have kth: "length xs - 1 < length xs" using n by simp
  have "nat (int (length xs) - 1) = length xs - 1" by simp
  then have a: "argpartition ap xs (int k - 1) = Inr (ap xs (length xs - 1))"
    using True n by (simp add: argpartition_def Let_def)
  from ap kth have "distinct (ap xs (length xs - 1))" "set (ap xs (length xs - 1)) = {..<length xs}"
    unfolding is_argpartition_def by blast+
  with a argpartition_length [OF ap kth] True show ?thesis by simp
next
  case False
  then have kth: "k - 1 < length xs" using k by simp
  have "nat (int k - 1) = k - 1" by simp
  then have a: "argpartition ap xs (int k - 1) = Inr (ap xs (k - 1))"
    using False k by (simp add: argpartition_def Let_def)
  from ap kth have d: "distinct (ap xs (k - 1))" and s: "set (ap xs (k - 1)) = {..<length xs}"
    and lo: "\<And>i. i < k - 1 \<Longrightarrow> xs ! (ap xs (k - 1) ! i) \<le> xs ! (ap xs (k - 1) ! (k - 1))"
    and hi: "\<And>i. k - 1 < i \<Longrightarrow> i < length xs \<Longrightarrow>
                 xs ! (ap xs (k - 1) ! (k - 1)) \<le> xs ! (ap xs (k - 1) ! i)"
    unfolding is_argpartition_def by blast+
  have lo': "xs ! (ap xs (k - 1) ! j) \<le> xs ! (ap xs (k - 1) ! (k - 1))" if "j < k" for j
  proof (cases "j = k - 1")
    case True
    then show ?thesis by simp
  next
    case False
    with that have "j < k - 1" by simp
    then show ?thesis by (rule lo)
  qed
  have hi': "xs ! (ap xs (k - 1) ! (k - 1)) \<le> xs ! (ap xs (k - 1) ! j)"
    if "k \<le> j" "j < length xs" for j
    using hi [of j] that False by simp
  from a d s argpartition_length [OF ap kth] lo' hi' show ?thesis by auto
qed


lemma top_selection_positive:
  fixes v :: "nat \<Rightarrow> real"
  assumes d: "distinct part" and s: "set part = {..<n}" and l: "length part = n"
    and k: "0 < k" "k \<le> n"
    and lo: "\<And>j. j < k \<Longrightarrow> v (part ! (k - 1)) \<le> v (part ! j)"
    and hi: "\<And>j. k \<le> j \<Longrightarrow> j < n \<Longrightarrow> v (part ! j) \<le> v (part ! (k - 1))"
    and cnt: "k \<le> card {i. i < n \<and> 0 < v i}"
  shows "\<forall>i \<in> set (take k part). 0 < v i"
proof (rule ccontr)
  assume "\<not> (\<forall>i \<in> set (take k part). 0 < v i)"
  then obtain i where i: "i \<in> set (take k part)" and vi: "v i \<le> 0" by force
  from i obtain a where a: "a < k" "part ! a = i"
    using l k by (auto simp: in_set_conv_nth)
  have piv: "v (part ! (k - 1)) \<le> 0" using lo [OF a(1)] a(2) vi by simp
  let ?P = "{i. i < n \<and> 0 < v i}"
  have sub: "?P \<subseteq> set (take k part) - {i}"
  proof
    fix p assume "p \<in> ?P"
    then have p: "p < n" "0 < v p" by simp_all
    then have "p \<in> set part" using s by simp
    then obtain j where j: "j < n" "part ! j = p" using l by (auto simp: in_set_conv_nth)
    have "j < k"
    proof (rule ccontr)
      assume "\<not> j < k"
      then have "v (part ! j) \<le> v (part ! (k - 1))" using hi [of j] j(1) by simp
      with piv j(2) p(2) show False by simp
    qed
    then have "p \<in> set (take k part)" using j l k by (auto simp: in_set_conv_nth)
    moreover have "p \<noteq> i" using vi p(2) by auto
    ultimately show "p \<in> set (take k part) - {i}" by simp
  qed
  have "card (set (take k part)) = k"
    using d l k by (simp add: distinct_card)
  then have "card (set (take k part) - {i}) = k - 1" using i by simp
  moreover have "card ?P \<le> card (set (take k part) - {i})"
    by (rule card_mono) (use sub in simp_all)
  ultimately show False using cnt k by simp
qed

lemma card_group_members:
  assumes "finite K" "0 < gs"
  shows "card {i. i div gs \<in> K} = card K * gs"
proof -
  have eq: "{i. i div gs \<in> K} = (\<lambda>(g, r). g * gs + r) ` (K \<times> {..<gs})"
  proof (intro set_eqI iffI)
    fix i assume "i \<in> {i. i div gs \<in> K}"
    then have "(i div gs, i mod gs) \<in> K \<times> {..<gs}" using assms(2) by simp
    moreover have "i = (\<lambda>(g, r). g * gs + r) (i div gs, i mod gs)" by simp
    ultimately show "i \<in> (\<lambda>(g, r). g * gs + r) ` (K \<times> {..<gs})" by (rule rev_image_eqI)
  next
    fix i assume "i \<in> (\<lambda>(g, r). g * gs + r) ` (K \<times> {..<gs})"
    then obtain g r where "g \<in> K" "r < gs" "i = g * gs + r" by auto
    then show "i \<in> {i. i div gs \<in> K}" by simp
  qed
  have inj: "inj_on (\<lambda>(g, r). g * gs + r) (K \<times> {..<gs})"
  proof (rule inj_onI)
    fix x y assume x: "x \<in> K \<times> {..<gs}" and y: "y \<in> K \<times> {..<gs}"
      and e: "(\<lambda>(g, r). g * gs + r) x = (\<lambda>(g, r). g * gs + r) y"
    obtain g r where xr: "x = (g, r)" by (cases x)
    obtain g' r' where yr: "y = (g', r')" by (cases y)
    from x y xr yr have r: "r < gs" "r' < gs" by simp_all
    from e xr yr have e': "g * gs + r = g' * gs + r'" by simp
    have "(g * gs + r) div gs = g" "(g' * gs + r') div gs = g'" using r by simp_all
    with e' have "g = g'" by simp
    with e' have "r = r'" by simp
    with \<open>g = g'\<close> xr yr show "x = y" by simp
  qed
  show ?thesis unfolding eq card_image [OF inj] using assms(1) by (simp add: card_cartesian_product)
qed

lemma length_chunks: "length (chunks n k xs) = k"
  by (induction k arbitrary: xs) simp_all

lemma greedy_token_selects:
  assumes ap: "is_argpartition ap"
    and len: "length scores = n_group self * gs"
    and gs: "0 < gs" and ng: "0 < n_group self"
    and tg: "topk_group self \<le> n_group self"
    and tk: "top_k self \<le> topk_group self * gs"
    and pos: "\<forall>s \<in> set scores. 0 < s"
  shows "\<exists>inds w. greedy_token ap self gs scores = Inr (inds, w) \<and>
           length inds = top_k self \<and> length w = top_k self \<and> distinct inds \<and>
           set inds \<subseteq> {..<length scores} \<and>
           card ((\<lambda>e. e div gs) ` set inds) \<le> topk_group self"
proof -
  define N where "N = length scores"
  define kd where "kd = n_group self - topk_group self"
  define group_scores where "group_scores = map row_max (chunks gs (n_group self) scores)"
  have Npos: "0 < N" using len gs ng by (simp add: N_def)
  have lg: "length group_scores = n_group self" by (simp add: group_scores_def length_chunks)
  have ik: "int (n_group self) - int (topk_group self) = int kd" using tg by (simp add: kd_def)
  have kd_le: "kd \<le> length group_scores" by (simp add: lg kd_def)
  from argpartition_take [OF ap _ kd_le] ng lg
  obtain part where part: "argpartition ap group_scores (int kd - 1) = Inr part"
    and dp: "distinct part" and sp: "set part = {..<n_group self}"
    and lp: "length part = n_group self"
    by auto
  define G where "G = set (take kd part)"
  have sl: "py_slice_to (int kd) part = take kd part" by (simp add: py_slice_to_def)
  have cG: "card G = kd"
    using dp lp by (simp add: G_def distinct_card kd_def)
  have subG: "G \<subseteq> {..<n_group self}" using sp by (auto simp: G_def dest: in_set_takeD)
  define scores' where
    "scores' = map (\<lambda>i. if i div gs \<in> G then 0 else scores ! i) [0..<length scores]"
  have ls': "length scores' = N" by (simp add: scores'_def N_def)
  have v: "scores' ! i = (if i div gs \<in> G then 0 else scores ! i)" if "i < N" for i
    using that by (simp add: scores'_def N_def)
  have vpos: "0 < scores' ! i \<longleftrightarrow> i div gs \<notin> G" if "i < N" for i
    using v [OF that] pos that by (auto simp: N_def)
  have tkN: "top_k self \<le> N"
  proof -
    have "topk_group self * gs \<le> n_group self * gs" using tg by (rule mult_le_mono1)
    with tk have "top_k self \<le> n_group self * gs" by (rule le_trans)
    then show ?thesis unfolding N_def len .
  qed
  have lm: "length (map uminus scores') = N" by (simp add: ls')
  from argpartition_take [OF ap, of "map uminus scores'" "top_k self"] Npos tkN lm
  obtain part' where part': "argpartition ap (map uminus scores') (int (top_k self) - 1) = Inr part'"
    and dp': "distinct part'" and sp': "set part' = {..<N}" and lp': "length part' = N"
    and ord: "0 < top_k self \<longrightarrow>
              (\<forall>j < top_k self. map uminus scores' ! (part' ! j)
                    \<le> map uminus scores' ! (part' ! (top_k self - 1))) \<and>
              (\<forall>j. top_k self \<le> j \<and> j < N \<longrightarrow>
                    map uminus scores' ! (part' ! (top_k self - 1))
                    \<le> map uminus scores' ! (part' ! j))"
    by auto
  define inds where "inds = take (top_k self) part'"
  have sl': "py_slice_to (int (top_k self)) part' = inds" by (simp add: py_slice_to_def inds_def)
  have res: "greedy_token ap self gs scores = Inr (inds, map (\<lambda>i. scores' ! i) inds)"
    unfolding greedy_token_def Let_def group_scores_def [symmetric] ik part bind_Inr sl
      G_def [symmetric] scores'_def [symmetric] part' sl' ..
  have li: "length inds = top_k self" using tkN lp' by (simp add: inds_def)
  have di: "distinct inds" using dp' by (simp add: inds_def)
  have si: "set inds \<subseteq> {..<N}" using sp' by (auto simp: inds_def dest: in_set_takeD)
  have rng: "part' ! j < N" if "j < N" for j using nth_mem [of j part'] sp' lp' that by simp
  have kept: "\<forall>i \<in> set inds. 0 < scores' ! i"
  proof (cases "top_k self = 0")
    case True
    then show ?thesis by (simp add: inds_def)
  next
    case False
    then have kpos: "0 < top_k self" by simp
    have pv: "top_k self - 1 < N" using kpos tkN by simp
    have um: "map uminus scores' ! (part' ! (top_k self - 1))
        = - (scores' ! (part' ! (top_k self - 1)))"
      using rng [OF pv] ls' by simp
    have lo: "scores' ! (part' ! (top_k self - 1)) \<le> scores' ! (part' ! j)"
      if "j < top_k self" for j
    proof -
      have "j < N" using that tkN by simp
      then have "map uminus scores' ! (part' ! j) = - (scores' ! (part' ! j))"
        using rng [of j] ls' by simp
      moreover have "map uminus scores' ! (part' ! j)
          \<le> map uminus scores' ! (part' ! (top_k self - 1))"
        using ord kpos that by blast
      ultimately show ?thesis using um by simp
    qed
    have hi: "scores' ! (part' ! j) \<le> scores' ! (part' ! (top_k self - 1))"
      if "top_k self \<le> j" "j < N" for j
    proof -
      have "map uminus scores' ! (part' ! j) = - (scores' ! (part' ! j))"
        using rng [OF that(2)] ls' by simp
      moreover have "map uminus scores' ! (part' ! (top_k self - 1))
          \<le> map uminus scores' ! (part' ! j)"
        using ord kpos that by blast
      ultimately show ?thesis using um by simp
    qed
    have "{i. i < N \<and> 0 < scores' ! i} = {i. i div gs \<in> {..<n_group self} - G}"
    proof (intro set_eqI iffI)
      fix i assume "i \<in> {i. i < N \<and> 0 < scores' ! i}"
      then have "i < N" "i div gs \<notin> G" using vpos by auto
      moreover from this have "i div gs < n_group self"
        using len gs by (simp add: N_def div_less_iff_less_mult)
      ultimately show "i \<in> {i. i div gs \<in> {..<n_group self} - G}" by simp
    next
      fix i assume "i \<in> {i. i div gs \<in> {..<n_group self} - G}"
      then have a: "i div gs < n_group self" "i div gs \<notin> G" by simp_all
      then have "i < N" using len gs by (simp add: N_def div_less_iff_less_mult)
      with a(2) vpos show "i \<in> {i. i < N \<and> 0 < scores' ! i}" by simp
    qed
    moreover have "card {i. i div gs \<in> {..<n_group self} - G} = card ({..<n_group self} - G) * gs"
      by (rule card_group_members) (use gs in simp_all)
    moreover have "card ({..<n_group self} - G) = topk_group self"
      using subG cG tg by (simp add: card_Diff_subset finite_subset [OF subG] kd_def)
    ultimately have cnt: "top_k self \<le> card {i. i < N \<and> 0 < scores' ! i}" using tk by simp
    show ?thesis
      unfolding inds_def
      by (rule top_selection_positive [OF dp' sp' lp' kpos tkN lo hi cnt])
  qed
  have "(\<lambda>e. e div gs) ` set inds \<subseteq> {..<n_group self} - G"
  proof
    fix g assume "g \<in> (\<lambda>e. e div gs) ` set inds"
    then obtain i where i: "i \<in> set inds" "g = i div gs" by auto
    then have iN: "i < N" using si by auto
    moreover have "0 < scores' ! i" using kept i(1) by blast
    ultimately have "i div gs \<notin> G" using vpos [of i] by blast
    moreover have "i div gs < n_group self"
      using iN len gs by (simp add: N_def div_less_iff_less_mult)
    ultimately show "g \<in> {..<n_group self} - G" using i(2) by simp
  qed
  then have "card ((\<lambda>e. e div gs) ` set inds) \<le> card ({..<n_group self} - G)"
    by (intro card_mono) simp_all
  also have "\<dots> = topk_group self"
    using subG cG tg by (simp add: card_Diff_subset finite_subset [OF subG] kd_def)
  finally have cg: "card ((\<lambda>e. e div gs) ` set inds) \<le> topk_group self" .
  from res li di si cg show ?thesis by (auto simp: N_def)
qed

lemma greedy_token_selects_example:
  "\<exists>inds w. greedy_token argsort gate_noaux 2 [1, 2, 3, 4] = Inr (inds, w) \<and>
     length inds = 2 \<and> length w = 2 \<and> distinct inds \<and> set inds \<subseteq> {..<4} \<and>
     card ((\<lambda>e. e div 2) ` set inds) \<le> 1"
  using greedy_token_selects [OF is_argpartition_argsort, of "[1, 2, 3, 4]" gate_noaux 2]
  by (simp add: gate_noaux_def eval_nat_numeral)

end
